theory Spec2Isabelle
  imports Complex_Main
begin

section \<open>The evidence store (class ChatDatabase)\<close>

text \<open>
  The store is an SQLite file with four tables. Each table is modelled as the list of its
  rows in insertion order. The integer surrogate key \<open>id\<close> of a row is left out: no
  statement of the class reads or writes it. Numbers are the integers the code puts there
  (clock readings in milliseconds and their differences); SQL NULL and a JavaScript
  \<open>undefined\<close> are \<open>None\<close>. The running average of the protocol aggregates is the one
  column a statement computes by a division: it is a real number (see the upsert below).
\<close>

record Message =
  m_uuid :: string
  m_fromIdentity :: string
  m_toIdentity :: string
  m_content :: string
  m_timestamp :: int
  m_isAcknowledgment :: bool
  m_firstReceivedProtocol :: "string option"
  m_firstReceivedAt :: "int option"

record MessageReceipt =
  r_messageUuid :: string
  r_protocol :: string
  r_server :: "string option"
  r_receivedAt :: int
  r_latencyMs :: int

record ChannelPreference =
  cp_identity :: string
  cp_protocol :: string
  cp_isWorking :: bool
  cp_lastAckAt :: "int option"
  cp_avgLatencyMs :: "int option"
  cp_preferenceOrder :: "int option"
  cp_cannotUse :: bool

record ProtocolPerformance =
  pp_protocol :: string
  pp_totalSent :: int
  pp_totalAcked :: int
  pp_avgLatencyMs :: "real option"
  pp_lastUsedAt :: "int option"

record Tables =
  messages :: "Message list"
  message_receipts :: "MessageReceipt list"
  channel_preferences :: "ChannelPreference list"
  protocol_performance :: "ProtocolPerformance list"

text \<open>
  A statement handed to the engine either executes or throws. Of the errors the code tells
  \<open>SQLITE_BUSY\<close> apart from the others; \<open>SQLITE_CONSTRAINT\<close> is what a violated
  constraint of the schema throws. Whether the engine is busy or fails otherwise is not
  decided by the program, so the store carries it as an oracle beside its tables:
  \<open>engine_errors\<close> lists, for the coming calls of \<open>execute\<close> in order, the error
  thrown (\<open>None\<close> and everything past the end of the list: the engine takes the
  statement), and \<open>math_random\<close> gives the coming values of \<open>Math.random()\<close>. The
  delays handed to \<open>setTimeout\<close> by the retry loop are logged in \<open>timeouts\<close>.
\<close>

datatype store_error = SQLITE_BUSY | SQLITE_CONSTRAINT | SQLITE_ERROR string

record ChatDatabase =
  tables :: Tables
  engine_errors :: "store_error option list"
  math_random :: "nat \<Rightarrow> real"
  timeouts :: "real list"

text \<open>
  The bound arguments are written \<open>x || null\<close> in the source. The operator yields its
  right operand for every falsy left operand: \<open>undefined\<close>, but also the number \<open>0\<close>
  and the empty string.
\<close>

fun number_or_null :: "int option \<Rightarrow> int option" where
  "number_or_null None = None"
| "number_or_null (Some n) = (if n = 0 then None else Some n)"

fun string_or_null :: "string option \<Rightarrow> string option" where
  "string_or_null None = None"
| "string_or_null (Some s) = (if s = [] then None else Some s)"

subsection \<open>The SQL statements\<close>

text \<open>
  \<open>INSERT OR IGNORE INTO messages\<close>: the column \<open>uuid\<close> is UNIQUE, and a row whose
  uuid is already in the table is dropped without an error.
\<close>

definition insert_or_ignore_message :: "Message \<Rightarrow> Tables \<Rightarrow> Tables" where
  "insert_or_ignore_message message d =
     (if \<exists>row \<in> set (messages d). m_uuid row = m_uuid message then d
      else d\<lparr>messages := messages d @
             [message\<lparr>m_firstReceivedProtocol := string_or_null (m_firstReceivedProtocol message),
                      m_firstReceivedAt := number_or_null (m_firstReceivedAt message)\<rparr>]\<rparr>)"

text \<open>
  \<open>UPDATE messages SET first_received_protocol = ?, first_received_at = ?
  WHERE uuid = ? AND first_received_protocol IS NULL\<close>.
\<close>

definition update_first_receipt :: "string \<Rightarrow> string \<Rightarrow> int \<Rightarrow> Tables \<Rightarrow> Tables" where
  "update_first_receipt uuid protocol receivedAt d =
     d\<lparr>messages :=
          map (\<lambda>row. if m_uuid row = uuid \<and> m_firstReceivedProtocol row = None
                      then row\<lparr>m_firstReceivedProtocol := Some protocol,
                               m_firstReceivedAt := Some receivedAt\<rparr>
                      else row)
            (messages d)\<rparr>"

text \<open>
  \<open>INSERT INTO message_receipts\<close>. The table declares
  \<open>FOREIGN KEY (message_uuid) REFERENCES messages(uuid)\<close>, and the client opens the file
  with foreign keys enforced: the insert appends the receipt when a row of \<open>messages\<close>
  has its uuid, and throws a constraint error, leaving the table as it is, when none has.
\<close>

definition insert_message_receipt :: "MessageReceipt \<Rightarrow> Tables \<Rightarrow> store_error + Tables" where
  "insert_message_receipt receipt d =
     (if \<exists>row \<in> set (messages d). m_uuid row = r_messageUuid receipt
      then Inr (d\<lparr>message_receipts := message_receipts d @
                    [receipt\<lparr>r_server := string_or_null (r_server receipt)\<rparr>]\<rparr>)
      else Inl SQLITE_CONSTRAINT)"

text \<open>
  \<open>INSERT INTO channel_preferences ... ON CONFLICT(identity, protocol) DO UPDATE SET\<close>:
  every column takes the new (excluded) value, except \<open>preference_order\<close>, which is
  \<open>COALESCE(excluded.preference_order, preference_order)\<close>.
\<close>

definition same_channel :: "ChannelPreference \<Rightarrow> ChannelPreference \<Rightarrow> bool" where
  "same_channel pref row \<longleftrightarrow> cp_identity row = cp_identity pref \<and> cp_protocol row = cp_protocol pref"

definition excluded_preference :: "ChannelPreference \<Rightarrow> ChannelPreference" where
  "excluded_preference pref =
     pref\<lparr>cp_lastAckAt := number_or_null (cp_lastAckAt pref),
          cp_avgLatencyMs := number_or_null (cp_avgLatencyMs pref),
          cp_preferenceOrder := number_or_null (cp_preferenceOrder pref)\<rparr>"

definition on_conflict_preference :: "ChannelPreference \<Rightarrow> ChannelPreference \<Rightarrow> ChannelPreference" where
  "on_conflict_preference excluded row =
     row\<lparr>cp_isWorking := cp_isWorking excluded,
          cp_lastAckAt := cp_lastAckAt excluded,
          cp_avgLatencyMs := cp_avgLatencyMs excluded,
          cp_preferenceOrder :=
            (case cp_preferenceOrder excluded of Some n \<Rightarrow> Some n | None \<Rightarrow> cp_preferenceOrder row),
          cp_cannotUse := cp_cannotUse excluded\<rparr>"

definition upsert_channel_preference :: "ChannelPreference \<Rightarrow> Tables \<Rightarrow> Tables" where
  "upsert_channel_preference pref d =
     (let excluded = excluded_preference pref in
      if \<exists>row \<in> set (channel_preferences d). same_channel pref row
      then d\<lparr>channel_preferences :=
               map (\<lambda>row. if same_channel pref row then on_conflict_preference excluded row else row)
                 (channel_preferences d)\<rparr>
      else d\<lparr>channel_preferences := channel_preferences d @ [excluded]\<rparr>)"

text \<open>
  \<open>INSERT INTO protocol_performance ... ON CONFLICT(protocol) DO UPDATE SET\<close>. The
  client binds a JavaScript number as REAL, so in \<open>(avg_latency_ms + ?) / 2\<close> the
  parameter is a floating-point number whatever the column holds, and the division is a
  floating-point division: the average of 10 and 5 becomes 7.5, which the INTEGER affinity
  of the column keeps as it is. The doubles are taken as reals (halving a sum of
  millisecond counts is exact on them).
\<close>

definition on_conflict_performance ::
  "int \<Rightarrow> int option \<Rightarrow> int \<Rightarrow> ProtocolPerformance \<Rightarrow> ProtocolPerformance" where
  "on_conflict_performance ackedInt latency now row =
     row\<lparr>pp_totalSent := pp_totalSent row + 1,
          pp_totalAcked := pp_totalAcked row + ackedInt,
          pp_avgLatencyMs :=
            (case latency of
               Some l \<Rightarrow>
                 (case pp_avgLatencyMs row of
                    None \<Rightarrow> Some (real_of_int l)
                  | Some avg \<Rightarrow> Some ((avg + real_of_int l) / 2))
             | None \<Rightarrow> pp_avgLatencyMs row),
          pp_lastUsedAt := Some now\<rparr>"

definition upsert_protocol_performance ::
  "string \<Rightarrow> bool \<Rightarrow> int option \<Rightarrow> int \<Rightarrow> Tables \<Rightarrow> Tables" where
  "upsert_protocol_performance protocol acked latencyMs now d =
     (let ackedInt = (if acked then 1 else 0);
          latency = number_or_null latencyMs in
      if \<exists>row \<in> set (protocol_performance d). pp_protocol row = protocol
      then d\<lparr>protocol_performance :=
               map (\<lambda>row. if pp_protocol row = protocol
                           then on_conflict_performance ackedInt latency now row else row)
                 (protocol_performance d)\<rparr>
      else d\<lparr>protocol_performance := protocol_performance d @
               [\<lparr>pp_protocol = protocol, pp_totalSent = 1, pp_totalAcked = ackedInt,
                 pp_avgLatencyMs = map_option real_of_int latency, pp_lastUsedAt = Some now\<rparr>]\<rparr>)"

subsection \<open>Retry with exponential backoff\<close>

text \<open>
  An attempt of the wrapped operation either returns or throws a store error. The
  operation is given as the outcome of its \<open>i\<close>-th invocation, \<open>random i\<close> is the value
  \<open>Math.random()\<close> returns when the delay after that invocation is computed. The loop returns what the call
  returns or throws (\<open>Inl None\<close> is \<open>throw lastError\<close> with nothing caught before),
  and the list of the delays it slept, in milliseconds.
\<close>

function executeWithRetry_loop ::
  "(nat \<Rightarrow> store_error + 'a) \<Rightarrow> (nat \<Rightarrow> real) \<Rightarrow> nat \<Rightarrow> real \<Rightarrow> nat \<Rightarrow> store_error option \<Rightarrow> real list
     \<Rightarrow> (store_error option + 'a) \<times> real list" where
  "executeWithRetry_loop operation random maxRetries delayMs i lastError slept =
     (if i < maxRetries then
        (case operation i of
           Inr v \<Rightarrow> (Inr v, slept)
         | Inl error \<Rightarrow>
             if error = SQLITE_BUSY \<and> i < maxRetries - 1
             then executeWithRetry_loop operation random maxRetries delayMs (i + 1) (Some error)
                    (slept @ [delayMs * 2 ^ i + random i * 50])
             else (Inl (Some error), slept))
      else (Inl lastError, slept))"
  by pat_completeness auto
termination
  by (relation "measure (\<lambda>(operation, random, maxRetries, delayMs, i, lastError, slept). maxRetries - i)")
     auto

definition executeWithRetry ::
  "(nat \<Rightarrow> store_error + 'a) \<Rightarrow> (nat \<Rightarrow> real) \<Rightarrow> nat \<Rightarrow> real \<Rightarrow> (store_error option + 'a) \<times> real list" where
  "executeWithRetry operation random maxRetries delayMs =
     executeWithRetry_loop operation random maxRetries delayMs 0 None []"

subsection \<open>The mutating methods\<close>

text \<open>
  Whatever a call of the pipeline throws: an error of the store (as \<open>executeWithRetry\<close>
  throws it), \<open>Error('Invalid recipient magnet link')\<close> of the broadcaster, or whatever a
  registered handler throws (the handler is named by its position).
\<close>

datatype exn = StoreError "store_error option" | InvalidRecipient | HandlerError nat

text \<open>
  \<open>this.db.execute(statement)\<close>, invoked for the \<open>i\<close>-th time within one method call:
  the engine throws the error the oracle holds for that invocation, or takes the
  statement, which executes or violates a constraint.
\<close>

definition execute :: "(Tables \<Rightarrow> store_error + Tables) \<Rightarrow> ChatDatabase \<Rightarrow> nat \<Rightarrow> store_error + Tables" where
  "execute statement d i =
     (case (if i < length (engine_errors d) then engine_errors d ! i else None) of
        Some error \<Rightarrow> Inl error
      | None \<Rightarrow> statement (tables d))"

text \<open>
  \<open>await this.executeWithRetry(() => this.db.execute(...))\<close> with the default
  \<open>maxRetries = 5\<close> and \<open>delayMs = 100\<close>, as every mutating method calls it. The
  invocations made and the random numbers drawn are taken off the oracle, and the delays
  slept are added to the log.
\<close>

definition mutation ::
  "(Tables \<Rightarrow> store_error + Tables) \<Rightarrow> ChatDatabase \<Rightarrow> exn option \<times> ChatDatabase" where
  "mutation statement d =
     (case executeWithRetry (execute statement d) (math_random d) 5 100 of
        (result, slept) \<Rightarrow>
          (let d' = d\<lparr>engine_errors := drop (length slept + 1) (engine_errors d),
                      math_random := (\<lambda>i. math_random d (length slept + i)),
                      timeouts := timeouts d @ slept\<rparr>
           in case result of
                Inr t \<Rightarrow> (None, d'\<lparr>tables := t\<rparr>)
              | Inl error \<Rightarrow> (Some (StoreError error), d')))"

text \<open>
  The five methods that write rows. Four of their statements cannot violate a constraint
  (their conflicts are ignored or turned into updates); the insert of a receipt can.
  \<open>saveMessage\<close> first awaits the initialisation of the tables; the store is taken as
  initialised. \<open>updateProtocolPerformance\<close> reads \<open>Date.now()\<close> itself; the reading is
  passed in by the caller, who holds the clock.
\<close>

definition saveMessage :: "Message \<Rightarrow> ChatDatabase \<Rightarrow> exn option \<times> ChatDatabase" where
  "saveMessage message = mutation (\<lambda>t. Inr (insert_or_ignore_message message t))"

definition updateMessageFirstReceipt :: "string \<Rightarrow> string \<Rightarrow> int \<Rightarrow> ChatDatabase \<Rightarrow> exn option \<times> ChatDatabase" where
  "updateMessageFirstReceipt uuid protocol receivedAt =
     mutation (\<lambda>t. Inr (update_first_receipt uuid protocol receivedAt t))"

definition saveMessageReceipt :: "MessageReceipt \<Rightarrow> ChatDatabase \<Rightarrow> exn option \<times> ChatDatabase" where
  "saveMessageReceipt receipt = mutation (insert_message_receipt receipt)"

definition updateChannelPreference :: "ChannelPreference \<Rightarrow> ChatDatabase \<Rightarrow> exn option \<times> ChatDatabase" where
  "updateChannelPreference pref = mutation (\<lambda>t. Inr (upsert_channel_preference pref t))"

definition updateProtocolPerformance ::
  "string \<Rightarrow> bool \<Rightarrow> int option \<Rightarrow> int \<Rightarrow> ChatDatabase \<Rightarrow> exn option \<times> ChatDatabase" where
  "updateProtocolPerformance protocol acked latencyMs now =
     mutation (\<lambda>t. Inr (upsert_protocol_performance protocol acked latencyMs now t))"

text \<open>\<open>N\<close> invocations of \<open>saveMessage\<close>, one after the other, whatever each one throws.\<close>

fun saveMessage_each :: "Message list \<Rightarrow> ChatDatabase \<Rightarrow> ChatDatabase" where
  "saveMessage_each [] d = d"
| "saveMessage_each (message # rest) d = saveMessage_each rest (snd (saveMessage message d))"

text \<open>
  A call of one of the five methods with its arguments, the method it invokes and the
  statement the method hands to the engine.
\<close>

datatype store_mutation =
    SaveMessage Message
  | UpdateMessageFirstReceipt string string int
  | SaveMessageReceipt MessageReceipt
  | UpdateChannelPreference ChannelPreference
  | UpdateProtocolPerformance string bool "int option" int

fun invoke :: "store_mutation \<Rightarrow> ChatDatabase \<Rightarrow> exn option \<times> ChatDatabase" where
  "invoke (SaveMessage message) = saveMessage message"
| "invoke (UpdateMessageFirstReceipt uuid protocol receivedAt) = updateMessageFirstReceipt uuid protocol receivedAt"
| "invoke (SaveMessageReceipt receipt) = saveMessageReceipt receipt"
| "invoke (UpdateChannelPreference pref) = updateChannelPreference pref"
| "invoke (UpdateProtocolPerformance protocol acked latencyMs now) =
     updateProtocolPerformance protocol acked latencyMs now"

fun statement_of :: "store_mutation \<Rightarrow> Tables \<Rightarrow> store_error + Tables" where
  "statement_of (SaveMessage message) t = Inr (insert_or_ignore_message message t)"
| "statement_of (UpdateMessageFirstReceipt uuid protocol receivedAt) t =
     Inr (update_first_receipt uuid protocol receivedAt t)"
| "statement_of (SaveMessageReceipt receipt) t = insert_message_receipt receipt t"
| "statement_of (UpdateChannelPreference pref) t = Inr (upsert_channel_preference pref t)"
| "statement_of (UpdateProtocolPerformance protocol acked latencyMs now) t =
     Inr (upsert_protocol_performance protocol acked latencyMs now t)"

section \<open>Messages (module message-types)\<close>

text \<open>
  Modelled from the spec: the module \<open>message-types\<close> is not among the sources; the spec
  gives the fields of a message, those an acknowledgment carries in addition, and what
  \<open>CreateAcknowledgment\<close> builds. The \<open>type\<close> field and the fields that come with
  the type \<open>acknowledgment\<close> are one tagged value.
\<close>

record ChannelPreferenceInfo =
  protocol :: string
  preferenceOrder :: int
  cannotUse :: bool

record AcknowledgmentFields =
  ackOfUuid :: string
  receivedVia :: string
  channelPreferences :: "ChannelPreferenceInfo list option"

datatype message_type = Type_message | Type_acknowledgment AcknowledgmentFields

record ChatMessage =
  uuid :: string
  type :: message_type
  content :: string
  timestamp :: int
  fromMagnetLink :: string

definition isAcknowledgment :: "ChatMessage \<Rightarrow> bool" where
  "isAcknowledgment message = (case type message of Type_acknowledgment a \<Rightarrow> True | Type_message \<Rightarrow> False)"

text \<open>
  Modelled from the spec: \<open>createAcknowledgment\<close> is not among the sources. The new
  uuid and the reading of the clock are arguments here.
\<close>

definition createAcknowledgment ::
  "ChatMessage \<Rightarrow> string \<Rightarrow> string \<Rightarrow> ChannelPreferenceInfo list \<Rightarrow> string \<Rightarrow> int \<Rightarrow> ChatMessage" where
  "createAcknowledgment original via selfMagnet prefs newUuid now =
     \<lparr>uuid = newUuid,
      type = Type_acknowledgment
               \<lparr>ackOfUuid = uuid original, receivedVia = via, channelPreferences = Some prefs\<rparr>,
      content = ''ACK: '' @ uuid original,
      timestamp = now,
      fromMagnetLink = selfMagnet\<rparr>"

section \<open>The broadcaster (classes Broadcaster and ChatBroadcaster)\<close>

text \<open>
  Modelled from the spec: the module \<open>identity\<close> is not among the sources; a decoded
  identity holds the two public keys and the Ethereum address.
\<close>

record UnifiedIdentity =
  secp256k1pub :: string
  ed25519pub :: string
  eth :: string

datatype transport = XMTP | Nostr | Waku | MQTT | IROH

record BroadcastResult =
  result_protocol :: string
  result_success :: bool
  result_error :: "string option"
  result_latencyMs :: "int option"

record BroadcasterOptions =
  xmtpEnabled :: bool
  nostrEnabled :: bool
  wakuEnabled :: bool
  mqttEnabled :: bool
  irohEnabled :: bool

text \<open>
  What the classes call and the sources do not hold, or what the world outside decides:
  the decoder of magnet links (\<open>null\<close> is \<open>None\<close>), the serializer, the runtime's
  capabilities, and the outcome of a driver's \<open>sendVia...\<close> promise in the \<open>k\<close>-th
  call of \<open>broadcast\<close> (\<open>None\<close>: the promise is rejected).
\<close>

record Env =
  decodeIdentity :: "string \<Rightarrow> UnifiedIdentity option"
  serializeMessage :: "ChatMessage \<Rightarrow> string"
  supportsXMTP :: bool
  supportsWaku :: bool
  sendVia :: "transport \<Rightarrow> UnifiedIdentity \<Rightarrow> string \<Rightarrow> nat \<Rightarrow> BroadcastResult option"

text \<open>
  A registered handler is code of the caller: the model keeps whether its call returns
  (\<open>True\<close>) or throws, and logs the call.
\<close>

type_synonym MessageHandler = "ChatMessage \<Rightarrow> string \<Rightarrow> bool"

text \<open>
  The object and what is observed of its run. The fields of the class are \<open>db\<close>,
  \<open>messageHandlers\<close>, \<open>seenMessageUuids\<close>, \<open>myMagnetLink\<close>, \<open>options\<close> and the
  protocol clients (present or not; the number of relays and brokers connected). The
  clock and the uuid generator are oracles: \<open>clock k\<close> is what the \<open>k\<close>-th call of
  \<open>Date.now()\<close> returns, \<open>uuid_source k\<close> the \<open>k\<close>-th random uuid. The logs record
  the handler calls, the calls of \<open>broadcast\<close>, the driver sends and \<open>console.error\<close>.
\<close>

record ChatBroadcaster =
  db :: ChatDatabase
  messageHandlers :: "MessageHandler list"
  seenMessageUuids :: "string set"
  myMagnetLink :: string
  options :: BroadcasterOptions
  xmtpClient :: bool
  nostrRelays :: nat
  wakuNode :: bool
  mqttClients :: nat
  irohNode :: bool
  clock :: "nat \<Rightarrow> int"
  clock_reads :: nat
  uuid_source :: "nat \<Rightarrow> string"
  uuids_drawn :: nat
  handler_calls :: "(nat \<times> ChatMessage \<times> string) list"
  broadcast_calls :: "(string \<times> string) list"
  driver_sends :: "(transport \<times> string \<times> string) list"
  console_errors :: "string list"

definition Date_now :: "ChatBroadcaster \<Rightarrow> int \<times> ChatBroadcaster" where
  "Date_now b = (clock b (clock_reads b), b\<lparr>clock_reads := clock_reads b + 1\<rparr>)"

definition randomUUID :: "ChatBroadcaster \<Rightarrow> string \<times> ChatBroadcaster" where
  "randomUUID b = (uuid_source b (uuids_drawn b), b\<lparr>uuids_drawn := uuids_drawn b + 1\<rparr>)"

text \<open>A method of \<open>this.db\<close>, awaited.\<close>

definition on_db ::
  "(ChatDatabase \<Rightarrow> exn option \<times> ChatDatabase) \<Rightarrow> ChatBroadcaster \<Rightarrow> exn option \<times> ChatBroadcaster" where
  "on_db method b = (case method (db b) of (thrown, d) \<Rightarrow> (thrown, b\<lparr>db := d\<rparr>))"

text \<open>One awaited call after the other: what the first throws ends the run.\<close>

definition and_then ::
  "(ChatBroadcaster \<Rightarrow> exn option \<times> ChatBroadcaster) \<Rightarrow> (ChatBroadcaster \<Rightarrow> exn option \<times> ChatBroadcaster)
     \<Rightarrow> ChatBroadcaster \<Rightarrow> exn option \<times> ChatBroadcaster" where
  "and_then first second b =
     (case first b of
        (Some thrown, b') \<Rightarrow> (Some thrown, b')
      | (None, b') \<Rightarrow> second b')"

subsection \<open>Broadcaster.broadcast\<close>

text \<open>
  One promise is pushed for each protocol that is enabled and whose client is there, in
  the order XMTP, Nostr, Waku, MQTT, IROH. This is \<open>broadcast\<close> up to its
  \<open>await Promise.allSettled(promises)\<close>: the recipient is decoded, and the drivers'
  sends are started. (\<open>this.logger.info\<close> writes to the log file only; the file is
  taken as writable.)
\<close>

definition promises :: "ChatBroadcaster \<Rightarrow> transport list" where
  "promises b =
     (if xmtpEnabled (options b) \<and> xmtpClient b then [XMTP] else []) @
     (if nostrEnabled (options b) \<and> nostrRelays b > 0 then [Nostr] else []) @
     (if wakuEnabled (options b) \<and> wakuNode b then [Waku] else []) @
     (if mqttEnabled (options b) \<and> mqttClients b > 0 then [MQTT] else []) @
     (if irohEnabled (options b) \<and> irohNode b then [IROH] else [])"

definition send_all ::
  "Env \<Rightarrow> string \<Rightarrow> string \<Rightarrow> ChatBroadcaster \<Rightarrow> (exn + BroadcastResult option list) \<times> ChatBroadcaster" where
  "send_all env recipientMagnetLink payload b =
     (let called = b\<lparr>broadcast_calls := broadcast_calls b @ [(recipientMagnetLink, payload)]\<rparr> in
      case decodeIdentity env recipientMagnetLink of
        None \<Rightarrow> (Inl InvalidRecipient, called)
      | Some recipient \<Rightarrow>
          (Inr (map (\<lambda>t. sendVia env t recipient payload (length (broadcast_calls b))) (promises b)),
           called\<lparr>driver_sends := driver_sends b @
                     map (\<lambda>t. (t, recipientMagnetLink, payload)) (promises b)\<rparr>))"

text \<open>
  The loop over the settled promises: the value of a fulfilled one is pushed to the
  results, a rejected one is logged by \<open>this.logger.error('Broadcast failed:', ...)\<close>,
  which always calls \<open>console.error\<close>.
\<close>

fun fulfilled :: "BroadcastResult option list \<Rightarrow> BroadcastResult list" where
  "fulfilled [] = []"
| "fulfilled (None # settled) = fulfilled settled"
| "fulfilled (Some result # settled) = result # fulfilled settled"

fun rejected :: "BroadcastResult option list \<Rightarrow> string list" where
  "rejected [] = []"
| "rejected (None # settled) = ''Broadcast failed:'' # rejected settled"
| "rejected (Some result # settled) = rejected settled"

definition collect :: "BroadcastResult option list \<Rightarrow> ChatBroadcaster \<Rightarrow> BroadcastResult list \<times> ChatBroadcaster" where
  "collect broadcastResults b =
     (fulfilled broadcastResults, b\<lparr>console_errors := console_errors b @ rejected broadcastResults\<rparr>)"

definition broadcast ::
  "Env \<Rightarrow> string \<Rightarrow> string \<Rightarrow> ChatBroadcaster \<Rightarrow> (exn + BroadcastResult list) \<times> ChatBroadcaster" where
  "broadcast env recipientMagnetLink payload b =
     (case send_all env recipientMagnetLink payload b of
        (Inl thrown, b') \<Rightarrow> (Inl thrown, b')
      | (Inr broadcastResults, b') \<Rightarrow>
          (case collect broadcastResults b' of (results, b'') \<Rightarrow> (Inr results, b'')))"

subsection \<open>ChatBroadcaster.sendAcknowledgment\<close>

definition myPreferences :: "Env \<Rightarrow> ChannelPreferenceInfo list" where
  "myPreferences env =
     [\<lparr>protocol = ''nostr'', preferenceOrder = 1, cannotUse = False\<rparr>,
      \<lparr>protocol = ''XMTP V3'', preferenceOrder = 2, cannotUse = \<not> supportsXMTP env\<rparr>,
      \<lparr>protocol = ''MQTT'', preferenceOrder = 3, cannotUse = False\<rparr>,
      \<lparr>protocol = ''IROH'', preferenceOrder = 4, cannotUse = False\<rparr>,
      \<lparr>protocol = ''Waku'', preferenceOrder = 5, cannotUse = \<not> supportsWaku env\<rparr>]"

text \<open>The acknowledgment \<open>sendAcknowledgment\<close> builds in the state \<open>b\<close>.\<close>

definition acknowledgment_of :: "Env \<Rightarrow> ChatMessage \<Rightarrow> string \<Rightarrow> ChatBroadcaster \<Rightarrow> ChatMessage" where
  "acknowledgment_of env originalMessage via b =
     createAcknowledgment originalMessage via (myMagnetLink b) (myPreferences env)
       (uuid_source b (uuids_drawn b)) (clock b (clock_reads b))"

text \<open>
  \<open>sendAcknowledgment\<close> builds the acknowledgment and the row it saves, awaits
  \<open>saveMessage\<close>, and then awaits the broadcast of the serialized acknowledgment inside
  \<open>try\<close>, whose \<open>catch\<close> writes to \<open>console.error\<close>.
\<close>

definition acknowledgment_row :: "Env \<Rightarrow> ChatMessage \<Rightarrow> ChatMessage \<Rightarrow> ChatBroadcaster \<Rightarrow> Message" where
  "acknowledgment_row env originalMessage ack b =
     \<lparr>m_uuid = uuid ack,
      m_fromIdentity = myMagnetLink b,
      m_toIdentity = fromMagnetLink originalMessage,
      m_content = serializeMessage env ack,
      m_timestamp = timestamp ack,
      m_isAcknowledgment = True,
      m_firstReceivedProtocol = None,
      m_firstReceivedAt = None\<rparr>"

definition save_acknowledgment ::
  "Env \<Rightarrow> ChatMessage \<Rightarrow> string \<Rightarrow> ChatBroadcaster \<Rightarrow> exn option \<times> ChatBroadcaster" where
  "save_acknowledgment env originalMessage via b =
     (let ack = acknowledgment_of env originalMessage via b;
          b1 = snd (Date_now (snd (randomUUID b)))
      in on_db (saveMessage (acknowledgment_row env originalMessage ack b1)) b1)"

definition broadcast_acknowledgment ::
  "Env \<Rightarrow> ChatMessage \<Rightarrow> string \<Rightarrow> ChatBroadcaster \<Rightarrow> exn option \<times> ChatBroadcaster" where
  "broadcast_acknowledgment env originalMessage serialized b =
     (case broadcast env (fromMagnetLink originalMessage) serialized b of
        (Inr results, b') \<Rightarrow> (None, b')
      | (Inl error, b') \<Rightarrow>
          (None, b'\<lparr>console_errors := console_errors b' @ [''Failed to send acknowledgment:'']\<rparr>))"

definition sendAcknowledgment ::
  "Env \<Rightarrow> ChatMessage \<Rightarrow> string \<Rightarrow> ChatBroadcaster \<Rightarrow> exn option \<times> ChatBroadcaster" where
  "sendAcknowledgment env originalMessage via b =
     and_then (save_acknowledgment env originalMessage via)
       (broadcast_acknowledgment env originalMessage
          (serializeMessage env (acknowledgment_of env originalMessage via b))) b"

subsection \<open>ChatBroadcaster.handleIncomingMessage\<close>

text \<open>
  \<open>onMessage\<close> registers a handler. It is the only registration the class offers, and
  \<open>messageHandlers\<close> the only list of handlers it holds.
\<close>

definition onMessage :: "MessageHandler \<Rightarrow> ChatBroadcaster \<Rightarrow> ChatBroadcaster" where
  "onMessage handler b = b\<lparr>messageHandlers := messageHandlers b @ [handler]\<rparr>"

definition receipt_of :: "ChatMessage \<Rightarrow> string \<Rightarrow> string option \<Rightarrow> ChatBroadcaster \<Rightarrow> MessageReceipt" where
  "receipt_of message via server b =
     \<lparr>r_messageUuid = uuid message,
      r_protocol = via,
      r_server = server,
      r_receivedAt = clock b (clock_reads b),
      r_latencyMs = clock b (clock_reads b + 1) - timestamp message\<rparr>"

definition save_receipt ::
  "ChatMessage \<Rightarrow> string \<Rightarrow> string option \<Rightarrow> ChatBroadcaster \<Rightarrow> exn option \<times> ChatBroadcaster" where
  "save_receipt message via server b =
     on_db (saveMessageReceipt (receipt_of message via server b)) (snd (Date_now (snd (Date_now b))))"

text \<open>The row \<open>saveMessage\<close> is called with for a first-seen message.\<close>

definition incoming_row :: "ChatMessage \<Rightarrow> string \<Rightarrow> ChatBroadcaster \<Rightarrow> Message" where
  "incoming_row message via b =
     \<lparr>m_uuid = uuid message,
      m_fromIdentity = fromMagnetLink message,
      m_toIdentity = myMagnetLink b,
      m_content = content message,
      m_timestamp = timestamp message,
      m_isAcknowledgment = (case type message of Type_acknowledgment a \<Rightarrow> True | Type_message \<Rightarrow> False),
      m_firstReceivedProtocol = Some via,
      m_firstReceivedAt = Some (clock b (clock_reads b))\<rparr>"

definition save_incoming :: "ChatMessage \<Rightarrow> string \<Rightarrow> ChatBroadcaster \<Rightarrow> exn option \<times> ChatBroadcaster" where
  "save_incoming message via b = on_db (saveMessage (incoming_row message via b)) (snd (Date_now b))"

text \<open>The channel the acknowledgment names as working (\<open>ackMessage.receivedVia\<close>).\<close>

definition learned_preference :: "ChatMessage \<Rightarrow> AcknowledgmentFields \<Rightarrow> ChatBroadcaster \<Rightarrow> ChannelPreference" where
  "learned_preference message ackMessage b =
     \<lparr>cp_identity = fromMagnetLink message,
      cp_protocol = receivedVia ackMessage,
      cp_isWorking = True,
      cp_lastAckAt = Some (clock b (clock_reads b)),
      cp_avgLatencyMs = Some (clock b (clock_reads b + 1) - timestamp message),
      cp_preferenceOrder = None,
      cp_cannotUse = False\<rparr>"

definition update_learned ::
  "ChatMessage \<Rightarrow> AcknowledgmentFields \<Rightarrow> ChatBroadcaster \<Rightarrow> exn option \<times> ChatBroadcaster" where
  "update_learned message ackMessage b =
     on_db (updateChannelPreference (learned_preference message ackMessage b))
       (snd (Date_now (snd (Date_now b))))"

text \<open>Their stated preferences: the loop over \<open>message.channelPreferences\<close>.\<close>

definition stated_preference :: "ChatMessage \<Rightarrow> ChannelPreferenceInfo \<Rightarrow> ChannelPreference" where
  "stated_preference message pref =
     \<lparr>cp_identity = fromMagnetLink message,
      cp_protocol = protocol pref,
      cp_isWorking = (\<not> cannotUse pref),
      cp_lastAckAt = None,
      cp_avgLatencyMs = None,
      cp_preferenceOrder = Some (preferenceOrder pref),
      cp_cannotUse = cannotUse pref\<rparr>"

fun update_stated ::
  "ChatMessage \<Rightarrow> ChannelPreferenceInfo list \<Rightarrow> ChatBroadcaster \<Rightarrow> exn option \<times> ChatBroadcaster" where
  "update_stated message [] b = (None, b)"
| "update_stated message (pref # prefs) b =
     and_then (on_db (updateChannelPreference (stated_preference message pref)))
       (update_stated message prefs) b"

definition update_preferences :: "ChatMessage \<Rightarrow> ChatBroadcaster \<Rightarrow> exn option \<times> ChatBroadcaster" where
  "update_preferences message b =
     (case type message of
        Type_message \<Rightarrow> (None, b)
      | Type_acknowledgment ackMessage \<Rightarrow>
          and_then (update_learned message ackMessage)
            (case channelPreferences ackMessage of
               None \<Rightarrow> (\<lambda>b'. (None, b'))
             | Some prefs \<Rightarrow> update_stated message prefs) b)"

text \<open>Notify the handlers, from the handler at position \<open>i\<close> on.\<close>

fun notify_handlers ::
  "MessageHandler list \<Rightarrow> nat \<Rightarrow> ChatMessage \<Rightarrow> string \<Rightarrow> ChatBroadcaster \<Rightarrow> exn option \<times> ChatBroadcaster" where
  "notify_handlers [] i message via b = (None, b)"
| "notify_handlers (handler # handlers) i message via b =
     (let b' = b\<lparr>handler_calls := handler_calls b @ [(i, message, via)]\<rparr> in
      if handler message via then notify_handlers handlers (i + 1) message via b'
      else (Some (HandlerError i), b'))"

definition handleIncomingMessage ::
  "Env \<Rightarrow> ChatMessage \<Rightarrow> string \<Rightarrow> string option \<Rightarrow> ChatBroadcaster \<Rightarrow> exn option \<times> ChatBroadcaster" where
  "handleIncomingMessage env message via server b =
     (if uuid message \<in> seenMessageUuids b then
        save_receipt message via server b
      else
        and_then (save_incoming message via)
       (and_then (save_receipt message via server)
       (and_then (update_preferences message)
       (and_then (\<lambda>b'. notify_handlers (messageHandlers b') 0 message via b')
                 (\<lambda>b'. if \<not> isAcknowledgment message then sendAcknowledgment env message via b'
                        else (None, b')))))
          (b\<lparr>seenMessageUuids := insert (uuid message) (seenMessageUuids b)\<rparr>))"

subsection \<open>ChatBroadcaster.sendMessage\<close>

fun update_performance :: "BroadcastResult list \<Rightarrow> ChatBroadcaster \<Rightarrow> exn option \<times> ChatBroadcaster" where
  "update_performance [] b = (None, b)"
| "update_performance (result # results) b =
     and_then
       (\<lambda>b'. on_db (updateProtocolPerformance (result_protocol result) (result_success result)
                      (result_latencyMs result) (clock b' (clock_reads b')))
                (snd (Date_now b')))
       (update_performance results) b"

definition outgoing_message :: "string \<Rightarrow> ChatBroadcaster \<Rightarrow> ChatMessage" where
  "outgoing_message text b =
     \<lparr>uuid = uuid_source b (uuids_drawn b),
      type = Type_message,
      content = text,
      timestamp = clock b (clock_reads b),
      fromMagnetLink = myMagnetLink b\<rparr>"

definition sendMessage ::
  "Env \<Rightarrow> string \<Rightarrow> string \<Rightarrow> ChatBroadcaster \<Rightarrow> (exn + BroadcastResult list) \<times> ChatBroadcaster" where
  "sendMessage env recipientMagnetLink text b =
     (let message = outgoing_message text b;
          b1 = snd (Date_now (snd (randomUUID b)));
          serialized = serializeMessage env message
      in case on_db (saveMessage
                \<lparr>m_uuid = uuid message,
                 m_fromIdentity = myMagnetLink b1,
                 m_toIdentity = recipientMagnetLink,
                 m_content = text,
                 m_timestamp = timestamp message,
                 m_isAcknowledgment = False,
                 m_firstReceivedProtocol = None,
                 m_firstReceivedAt = None\<rparr>) b1 of
           (Some thrown, b2) \<Rightarrow> (Inl thrown, b2)
         | (None, b2) \<Rightarrow>
             (case broadcast env recipientMagnetLink serialized b2 of
                (Inl thrown, b3) \<Rightarrow> (Inl thrown, b3)
              | (Inr results, b3) \<Rightarrow>
                  (case update_performance results b3 of
                     (Some thrown, b4) \<Rightarrow> (Inl thrown, b4)
                   | (None, b4) \<Rightarrow> (Inr results, b4))))"


section \<open>Arrivals in flight together\<close>

text \<open>
  \<open>handleIncomingMessage\<close> is an async function, and the listeners of Nostr, XMTP and
  MQTT call it without awaiting it: the runs for several arrivals overlap. A run executes
  without interruption from one suspension to the next, and it is suspended at every
  \<open>await\<close>. The awaited call has been made when the run is suspended: a handler has been
  called, the drivers' sends have been started, and a method of the store has handed its
  statement to the engine (the client, opened on a file, executes the statement within
  the call of \<open>execute\<close>). Only \<open>saveMessage\<close> first awaits the initialisation of the
  tables, so its statement is executed when the run is taken up again. A run is kept as
  the \<open>await\<close> at which it is suspended, with what the code after it still needs. A call
  that throws ends the run at once (the rejection reaches the run when it is taken up
  again, where it only propagates). The retry loop of a call is taken in one piece: its
  sleeps are further suspensions, which matter only when the engine is busy.
\<close>

datatype program_point =
    Awaits_init Message
  | Awaits_saveMessage
  | Awaits_saveMessageReceipt
  | Awaits_updateChannelPreference "ChannelPreferenceInfo list"
  | Awaits_handler nat
  | Awaits_acknowledgment_init Message string
  | Awaits_acknowledgment_saved string
  | Awaits_broadcast "exn + BroadcastResult option list"
  | Awaits_duplicate_receipt
  | Returned
  | Thrown exn

record run_state =
  run_message :: ChatMessage
  run_via :: string
  run_server :: "string option"
  run_point :: program_point

definition proceed :: "program_point \<Rightarrow> exn option \<times> ChatBroadcaster \<Rightarrow> program_point \<times> ChatBroadcaster" where
  "proceed next outcome = (case outcome of (Some thrown, b) \<Rightarrow> (Thrown thrown, b) | (None, b) \<Rightarrow> (next, b))"

text \<open>
  After the loop over the handlers: the function returns for an acknowledgment; for any
  other message \<open>sendAcknowledgment\<close> builds the acknowledgment and calls \<open>saveMessage\<close>,
  which awaits the initialisation.
\<close>

definition begin_acknowledgment ::
  "Env \<Rightarrow> ChatMessage \<Rightarrow> string \<Rightarrow> ChatBroadcaster \<Rightarrow> program_point \<times> ChatBroadcaster" where
  "begin_acknowledgment env message via b =
     (if \<not> isAcknowledgment message then
        (let ack = acknowledgment_of env message via b;
             b1 = snd (Date_now (snd (randomUUID b)))
         in (Awaits_acknowledgment_init (acknowledgment_row env message ack b1) (serializeMessage env ack), b1))
      else (Returned, b))"

text \<open>The loop over the handlers, entered or taken up again at the handler at position \<open>i\<close>.\<close>

definition next_handler ::
  "Env \<Rightarrow> ChatMessage \<Rightarrow> string \<Rightarrow> nat \<Rightarrow> ChatBroadcaster \<Rightarrow> program_point \<times> ChatBroadcaster" where
  "next_handler env message via i b =
     (if i < length (messageHandlers b) then
        (if (messageHandlers b ! i) message via then Awaits_handler i else Thrown (HandlerError i),
         b\<lparr>handler_calls := handler_calls b @ [(i, message, via)]\<rparr>)
      else begin_acknowledgment env message via b)"

text \<open>What \<open>sendAcknowledgment\<close> does when its awaited \<open>broadcast\<close> has settled.\<close>

definition end_acknowledgment :: "exn + BroadcastResult option list \<Rightarrow> ChatBroadcaster \<Rightarrow> ChatBroadcaster" where
  "end_acknowledgment outcome b =
     (case outcome of
        Inl error \<Rightarrow> b\<lparr>console_errors := console_errors b @ [''Failed to send acknowledgment:'']\<rparr>
      | Inr broadcastResults \<Rightarrow> snd (collect broadcastResults b))"

text \<open>A suspended run is taken up again and runs to its next suspension.\<close>

definition resume_point ::
  "Env \<Rightarrow> ChatMessage \<Rightarrow> string \<Rightarrow> string option \<Rightarrow> program_point \<Rightarrow> ChatBroadcaster
     \<Rightarrow> program_point \<times> ChatBroadcaster" where
  "resume_point env message via server point b =
     (case point of
        Awaits_init row \<Rightarrow> proceed Awaits_saveMessage (on_db (saveMessage row) b)
      | Awaits_saveMessage \<Rightarrow> proceed Awaits_saveMessageReceipt (save_receipt message via server b)
      | Awaits_saveMessageReceipt \<Rightarrow>
          (case type message of
             Type_message \<Rightarrow> next_handler env message via 0 b
           | Type_acknowledgment ackMessage \<Rightarrow>
               proceed
                 (Awaits_updateChannelPreference
                    (case channelPreferences ackMessage of None \<Rightarrow> [] | Some prefs \<Rightarrow> prefs))
                 (update_learned message ackMessage b))
      | Awaits_updateChannelPreference [] \<Rightarrow> next_handler env message via 0 b
      | Awaits_updateChannelPreference (pref # prefs) \<Rightarrow>
          proceed (Awaits_updateChannelPreference prefs)
            (on_db (updateChannelPreference (stated_preference message pref)) b)
      | Awaits_handler i \<Rightarrow> next_handler env message via (i + 1) b
      | Awaits_acknowledgment_init row serialized \<Rightarrow>
          proceed (Awaits_acknowledgment_saved serialized) (on_db (saveMessage row) b)
      | Awaits_acknowledgment_saved serialized \<Rightarrow>
          (case send_all env (fromMagnetLink message) serialized b of
             (outcome, b') \<Rightarrow> (Awaits_broadcast outcome, b'))
      | Awaits_broadcast outcome \<Rightarrow> (Returned, end_acknowledgment outcome b)
      | Awaits_duplicate_receipt \<Rightarrow> (Returned, b)
      | Returned \<Rightarrow> (Returned, b)
      | Thrown thrown \<Rightarrow> (Thrown thrown, b))"

definition resume :: "Env \<Rightarrow> run_state \<Rightarrow> ChatBroadcaster \<Rightarrow> run_state \<times> ChatBroadcaster" where
  "resume env r b =
     (case resume_point env (run_message r) (run_via r) (run_server r) (run_point r) b of
        (point, b') \<Rightarrow> (r\<lparr>run_point := point\<rparr>, b'))"

text \<open>
  The synchronous head of \<open>handleIncomingMessage\<close>, up to its first suspension. The test
  of the seen set and the insertion into it happen with no \<open>await\<close> in between. For a
  uuid in the seen set the head calls \<open>saveMessageReceipt\<close>, and the insert of the
  receipt is executed within the head. For a new uuid the head reads the clock for the
  row of the message and calls \<open>saveMessage\<close>, which is suspended before its insert.
\<close>

definition arrive ::
  "ChatMessage \<Rightarrow> string \<Rightarrow> string option \<Rightarrow> ChatBroadcaster \<times> run_state list \<Rightarrow> ChatBroadcaster \<times> run_state list" where
  "arrive message via server sys =
     (case sys of (b, runs) \<Rightarrow>
        if uuid message \<in> seenMessageUuids b
        then (case proceed Awaits_duplicate_receipt (save_receipt message via server b) of
                (point, b') \<Rightarrow>
                  (b', runs @ [\<lparr>run_message = message, run_via = via, run_server = server,
                                run_point = point\<rparr>]))
        else (let b0 = b\<lparr>seenMessageUuids := insert (uuid message) (seenMessageUuids b)\<rparr>
              in (snd (Date_now b0),
                  runs @ [\<lparr>run_message = message, run_via = via, run_server = server,
                           run_point = Awaits_init (incoming_row message via b0)\<rparr>])))"

text \<open>
  What the event loop does next: a transport delivers a message, or the run at position
  \<open>i\<close> is taken up again.
\<close>

datatype event = Arrival ChatMessage string "string option" | Resume nat

fun occur :: "Env \<Rightarrow> event \<Rightarrow> ChatBroadcaster \<times> run_state list \<Rightarrow> ChatBroadcaster \<times> run_state list" where
  "occur env (Arrival message via server) sys = arrive message via server sys"
| "occur env (Resume i) (b, runs) =
     (if i < length runs
      then (case resume env (runs ! i) b of (r, b') \<Rightarrow> (b', runs[i := r]))
      else (b, runs))"

fun interleave :: "Env \<Rightarrow> event list \<Rightarrow> ChatBroadcaster \<times> run_state list \<Rightarrow> ChatBroadcaster \<times> run_state list" where
  "interleave env [] sys = sys"
| "interleave env (e # events) sys = interleave env events (occur env e sys)"

fun arrival_of :: "string \<Rightarrow> event \<Rightarrow> bool" where
  "arrival_of u (Arrival message via server) = (uuid message = u)"
| "arrival_of u (Resume i) = False"

text \<open>The rows of a uuid.\<close>

definition message_rows :: "string \<Rightarrow> ChatBroadcaster \<Rightarrow> Message list" where
  "message_rows u b = filter (\<lambda>row. m_uuid row = u) (messages (tables (db b)))"

definition receipt_rows :: "string \<Rightarrow> ChatBroadcaster \<Rightarrow> MessageReceipt list" where
  "receipt_rows u b = filter (\<lambda>row. r_messageUuid row = u) (message_receipts (tables (db b)))"

section \<open>Notions for the statements and the proofs\<close>

text \<open>
  A step is quiet when it leaves the broadcaster as it was but for the store, the number
  of clock readings and the log of handler calls: every step of \<open>handleIncomingMessage\<close>
  before the acknowledgment is.
\<close>

definition quiet :: "ChatBroadcaster \<Rightarrow> ChatBroadcaster \<Rightarrow> bool" where
  "quiet b b' \<longleftrightarrow>
     b' = b\<lparr>db := db b', clock_reads := clock_reads b', handler_calls := handler_calls b'\<rparr>"

definition quiet_step :: "(ChatBroadcaster \<Rightarrow> exn option \<times> ChatBroadcaster) \<Rightarrow> bool" where
  "quiet_step f \<longleftrightarrow> (\<forall>b. quiet b (snd (f b)))"

text \<open>The first-seen branch of \<open>handleIncomingMessage\<close> up to the loop over the handlers.\<close>

definition before_acknowledgment ::
  "ChatMessage \<Rightarrow> string \<Rightarrow> string option \<Rightarrow> ChatBroadcaster \<Rightarrow> exn option \<times> ChatBroadcaster" where
  "before_acknowledgment message via server =
     and_then (save_incoming message via)
    (and_then (save_receipt message via server)
    (and_then (update_preferences message)
              (\<lambda>b'. notify_handlers (messageHandlers b') 0 message via b')))"

text \<open>The upserts the loop \<open>update_stated\<close> hands to the store, applied in its order.\<close>

fun upsert_stated :: "ChatMessage \<Rightarrow> ChannelPreferenceInfo list \<Rightarrow> Tables \<Rightarrow> Tables" where
  "upsert_stated message [] t = t"
| "upsert_stated message (pref # prefs) t =
     upsert_stated message prefs (upsert_channel_preference (stated_preference message pref) t)"

text \<open>A run taken alone: taken up again \<open>n\<close> times with nothing in between.\<close>

fun steps_alone ::
  "nat \<Rightarrow> Env \<Rightarrow> ChatMessage \<Rightarrow> string \<Rightarrow> string option \<Rightarrow> program_point \<Rightarrow> ChatBroadcaster
     \<Rightarrow> program_point \<times> ChatBroadcaster" where
  "steps_alone 0 env message via server point b = (point, b)"
| "steps_alone (Suc n) env message via server point b =
     (case resume_point env message via server point b of
        (point', b') \<Rightarrow> steps_alone n env message via server point' b')"

definition ended :: "exn option \<times> ChatBroadcaster \<Rightarrow> program_point \<times> ChatBroadcaster" where
  "ended outcome = (case outcome of (None, b) \<Rightarrow> (Returned, b) | (Some thrown, b) \<Rightarrow> (Thrown thrown, b))"

definition reaches ::
  "Env \<Rightarrow> ChatMessage \<Rightarrow> string \<Rightarrow> string option \<Rightarrow> program_point \<Rightarrow> ChatBroadcaster
     \<Rightarrow> exn option \<times> ChatBroadcaster \<Rightarrow> bool" where
  "reaches env message via server point b outcome \<longleftrightarrow>
     (\<exists>n. steps_alone n env message via server point b = ended outcome)"

text \<open>The last statement of \<open>handleIncomingMessage\<close>.\<close>

definition acknowledge :: "Env \<Rightarrow> ChatMessage \<Rightarrow> string \<Rightarrow> ChatBroadcaster \<Rightarrow> exn option \<times> ChatBroadcaster" where
  "acknowledge env message via b =
     (if \<not> isAcknowledgment message then sendAcknowledgment env message via b else (None, b))"

section \<open>Concrete inputs\<close>

text \<open>States and messages at which the theorems below are evaluated.\<close>

definition demo_tables :: Tables where
  "demo_tables = \<lparr>messages = [], message_receipts = [], channel_preferences = [], protocol_performance = []\<rparr>"

definition demo_message :: "string \<Rightarrow> string \<Rightarrow> Message" where
  "demo_message u text =
     \<lparr>m_uuid = u, m_fromIdentity = ''alice'', m_toIdentity = ''bob'', m_content = text,
      m_timestamp = 1000, m_isAcknowledgment = False,
      m_firstReceivedProtocol = None, m_firstReceivedAt = None\<rparr>"

definition demo_performance :: ChatDatabase where
  "demo_performance =
     \<lparr>tables = demo_tables\<lparr>protocol_performance :=
        [\<lparr>pp_protocol = ''MQTT'', pp_totalSent = 3, pp_totalAcked = 2,
          pp_avgLatencyMs = Some 10, pp_lastUsedAt = Some 1000\<rparr>]\<rparr>,
      engine_errors = [], math_random = (\<lambda>i. 0), timeouts = []\<rparr>"

definition demo_preferences :: ChatDatabase where
  "demo_preferences =
     \<lparr>tables = demo_tables\<lparr>channel_preferences :=
        [\<lparr>cp_identity = ''bob'', cp_protocol = ''nostr'', cp_isWorking = True,
          cp_lastAckAt = Some 5000, cp_avgLatencyMs = Some 40,
          cp_preferenceOrder = Some 1, cp_cannotUse = False\<rparr>]\<rparr>,
      engine_errors = [], math_random = (\<lambda>i. 0), timeouts = []\<rparr>"

definition demo_env :: Env where
  "demo_env =
     \<lparr>decodeIdentity = (\<lambda>link. if link = ''magnet:alice''
                               then Some \<lparr>secp256k1pub = ''04a1'', ed25519pub = ''e1'', eth = ''0xa1''\<rparr>
                               else None),
      serializeMessage = (\<lambda>message. uuid message @ ''|'' @ content message),
      supportsXMTP = False,
      supportsWaku = False,
      sendVia = (\<lambda>t recipient payload k.
                   Some \<lparr>result_protocol = (if t = Nostr then ''Nostr (2 relays)'' else ''MQTT (1/1 brokers)''),
                         result_success = True, result_error = None, result_latencyMs = Some 0\<rparr>)\<rparr>"

definition demo_broadcaster :: ChatBroadcaster where
  "demo_broadcaster =
     \<lparr>db = \<lparr>tables = demo_tables, engine_errors = [], math_random = (\<lambda>i. 0), timeouts = []\<rparr>,
      messageHandlers = [\<lambda>message via. True],
      seenMessageUuids = {},
      myMagnetLink = ''magnet:bob'',
      options = \<lparr>xmtpEnabled = False, nostrEnabled = True, wakuEnabled = False,
                 mqttEnabled = True, irohEnabled = True\<rparr>,
      xmtpClient = False, nostrRelays = 2, wakuNode = False, mqttClients = 1, irohNode = False,
      clock = (\<lambda>k. 5000 + int k), clock_reads = 0,
      uuid_source = (\<lambda>k. ''local-'' @ replicate k CHR ''i''), uuids_drawn = 0,
      handler_calls = [], broadcast_calls = [], driver_sends = [], console_errors = []\<rparr>"

definition demo_chat :: "string \<Rightarrow> ChatMessage" where
  "demo_chat text =
     \<lparr>uuid = ''u1'', type = Type_message, content = text, timestamp = 4990,
      fromMagnetLink = ''magnet:alice''\<rparr>"

definition demo_ack :: ChatMessage where
  "demo_ack =
     \<lparr>uuid = ''a1'',
      type = Type_acknowledgment \<lparr>ackOfUuid = ''m1'', receivedVia = ''nostr'', channelPreferences = None\<rparr>,
      content = ''ACK: m1'', timestamp = 4990, fromMagnetLink = ''magnet:alice''\<rparr>"

definition demo_after_first :: ChatBroadcaster where
  "demo_after_first =
     demo_broadcaster
       \<lparr>db := \<lparr>tables =
                 \<lparr>messages =
                    [\<lparr>m_uuid = ''u1'', m_fromIdentity = ''magnet:alice'', m_toIdentity = ''magnet:bob'',
                      m_content = ''hi'', m_timestamp = 4990, m_isAcknowledgment = False,
                      m_firstReceivedProtocol = Some ''MQTT'', m_firstReceivedAt = Some 5000\<rparr>,
                     \<lparr>m_uuid = ''local-'', m_fromIdentity = ''magnet:bob'', m_toIdentity = ''magnet:alice'',
                      m_content = ''local-|ACK: u1'', m_timestamp = 5003, m_isAcknowledgment = True,
                      m_firstReceivedProtocol = None, m_firstReceivedAt = None\<rparr>],
                  message_receipts =
                    [\<lparr>r_messageUuid = ''u1'', r_protocol = ''MQTT'', r_server = None,
                      r_receivedAt = 5001, r_latencyMs = 12\<rparr>],
                  channel_preferences = [], protocol_performance = []\<rparr>,
               engine_errors = [], math_random = (\<lambda>i. 0), timeouts = []\<rparr>,
        seenMessageUuids := {''u1''},
        clock_reads := 4,
        uuids_drawn := 1,
        handler_calls := [(0, demo_chat ''hi'', ''MQTT'')],
        broadcast_calls := [(''magnet:alice'', ''local-|ACK: u1'')],
        driver_sends := [(Nostr, ''magnet:alice'', ''local-|ACK: u1''), (MQTT, ''magnet:alice'', ''local-|ACK: u1'')]\<rparr>"


definition demo_ack_stated :: ChatMessage where
  "demo_ack_stated =
     \<lparr>uuid = ''a2'',
      type = Type_acknowledgment
        \<lparr>ackOfUuid = ''m1'', receivedVia = ''nostr'',
         channelPreferences = Some [\<lparr>protocol = ''nostr'', preferenceOrder = 1, cannotUse = False\<rparr>,
                                    \<lparr>protocol = ''Waku'', preferenceOrder = 5, cannotUse = True\<rparr>]\<rparr>,
      content = ''ACK: m1'', timestamp = 4990, fromMagnetLink = ''magnet:alice''\<rparr>"

definition demo_throwing :: ChatBroadcaster where
  "demo_throwing = demo_broadcaster\<lparr>messageHandlers := [\<lambda>message via. False]\<rparr>"

definition demo_receipt :: MessageReceipt where
  "demo_receipt =
     \<lparr>r_messageUuid = ''u1'', r_protocol = ''MQTT'', r_server = None, r_receivedAt = 2000, r_latencyMs = 1000\<rparr>"

definition demo_busy :: ChatDatabase where
  "demo_busy =
     \<lparr>tables = demo_tables\<lparr>messages := [demo_message ''u1'' ''hi'']\<rparr>,
      engine_errors = [Some SQLITE_BUSY, Some SQLITE_BUSY, None, Some SQLITE_BUSY],
      math_random = (\<lambda>i. 1 / 2), timeouts = []\<rparr>"

definition demo_events :: "event list" where
  "demo_events =
     [Arrival (demo_chat ''hi'') ''MQTT'' None,
      Arrival (demo_chat ''hi'') ''nostr'' (Some ''wss://nos.lol''),
      Resume 0, Resume 0, Resume 0, Resume 0, Resume 0, Resume 0, Resume 0]"

definition demo_unacknowledged :: ChatBroadcaster where
  "demo_unacknowledged =
     demo_throwing
       \<lparr>db := \<lparr>tables =
                 \<lparr>messages =
                    [\<lparr>m_uuid = ''u1'', m_fromIdentity = ''magnet:alice'', m_toIdentity = ''magnet:bob'',
                      m_content = ''hi'', m_timestamp = 4990, m_isAcknowledgment = False,
                      m_firstReceivedProtocol = Some ''MQTT'', m_firstReceivedAt = Some 5000\<rparr>],
                  message_receipts =
                    [\<lparr>r_messageUuid = ''u1'', r_protocol = ''MQTT'', r_server = None,
                      r_receivedAt = 5001, r_latencyMs = 12\<rparr>],
                  channel_preferences = [], protocol_performance = []\<rparr>,
               engine_errors = [], math_random = (\<lambda>i. 0), timeouts = []\<rparr>,
        seenMessageUuids := {''u1''},
        clock_reads := 3,
        handler_calls := [(0, demo_chat ''hi'', ''MQTT'')]\<rparr>"

definition demo_interleaved :: ChatBroadcaster where
  "demo_interleaved =
     demo_broadcaster
       \<lparr>db := \<lparr>tables =
                 \<lparr>messages =
                    [\<lparr>m_uuid = ''u1'', m_fromIdentity = ''magnet:alice'', m_toIdentity = ''magnet:bob'',
                      m_content = ''hi'', m_timestamp = 4990, m_isAcknowledgment = False,
                      m_firstReceivedProtocol = Some ''MQTT'', m_firstReceivedAt = Some 5000\<rparr>,
                     \<lparr>m_uuid = ''local-'', m_fromIdentity = ''magnet:bob'', m_toIdentity = ''magnet:alice'',
                      m_content = ''local-|ACK: u1'', m_timestamp = 5005, m_isAcknowledgment = True,
                      m_firstReceivedProtocol = None, m_firstReceivedAt = None\<rparr>],
                  message_receipts =
                    [\<lparr>r_messageUuid = ''u1'', r_protocol = ''MQTT'', r_server = None,
                      r_receivedAt = 5003, r_latencyMs = 14\<rparr>],
                  channel_preferences = [], protocol_performance = []\<rparr>,
               engine_errors = [], math_random = (\<lambda>i. 0), timeouts = []\<rparr>,
        seenMessageUuids := {''u1''},
        clock_reads := 6,
        uuids_drawn := 1,
        handler_calls := [(0, demo_chat ''hi'', ''MQTT'')],
        broadcast_calls := [(''magnet:alice'', ''local-|ACK: u1'')],
        driver_sends := [(Nostr, ''magnet:alice'', ''local-|ACK: u1''), (MQTT, ''magnet:alice'', ''local-|ACK: u1'')]\<rparr>"

definition demo_in_turn :: "event list" where
  "demo_in_turn =
     [Arrival (demo_chat ''hi'') ''MQTT'' None,
      Resume 0, Resume 0, Resume 0, Resume 0, Resume 0, Resume 0, Resume 0,
      Arrival (demo_chat ''hi'') ''nostr'' (Some ''wss://nos.lol''),
      Resume 1]"

section \<open>Properties of the store\<close>

subsection \<open>The retry loop\<close>

lemma executeWithRetry_loop_run:
  assumes "i < maxRetries"
  shows "\<exists>n. i \<le> n \<and> n < maxRetries
           \<and> (\<forall>j. i \<le> j \<and> j < n \<longrightarrow> operation j = Inl SQLITE_BUSY)
           \<and> (operation n = Inl SQLITE_BUSY \<longrightarrow> n = maxRetries - 1)
           \<and> executeWithRetry_loop operation random maxRetries delayMs i lastError slept =
               ((case operation n of Inr v \<Rightarrow> Inr v | Inl e \<Rightarrow> Inl (Some e)),
                slept @ map (\<lambda>j. delayMs * 2 ^ j + random j * 50) [i..<n])"
  using assms
proof (induction operation random maxRetries delayMs i lastError slept rule: executeWithRetry_loop.induct)
  case (1 operation random maxRetries delayMs i lastError slept)
  show ?case
  proof (cases "operation i")
    case (Inr v)
    then show ?thesis using "1.prems"
      by (intro exI[of _ i]) auto
  next
    case (Inl e)
    show ?thesis
    proof (cases "e = SQLITE_BUSY \<and> i < maxRetries - 1")
      case False
      then show ?thesis using "1.prems" Inl
        by (intro exI[of _ i]) auto
    next
      case True
      then have lt: "i + 1 < maxRetries" by auto
      from "1.IH"[OF "1.prems" Inl True lt] obtain n where n:
        "i + 1 \<le> n" "n < maxRetries"
        "\<forall>j. i + 1 \<le> j \<and> j < n \<longrightarrow> operation j = Inl SQLITE_BUSY"
        "operation n = Inl SQLITE_BUSY \<longrightarrow> n = maxRetries - 1"
        "executeWithRetry_loop operation random maxRetries delayMs (i + 1) (Some e)
           (slept @ [delayMs * 2 ^ i + random i * 50]) =
         ((case operation n of Inr v \<Rightarrow> Inr v | Inl e \<Rightarrow> Inl (Some e)),
          (slept @ [delayMs * 2 ^ i + random i * 50]) @ map (\<lambda>j. delayMs * 2 ^ j + random j * 50) [i + 1..<n])"
        by blast
      have busy: "\<forall>j. i \<le> j \<and> j < n \<longrightarrow> operation j = Inl SQLITE_BUSY"
        using n(3) Inl True by (metis Suc_eq_plus1 Suc_leI le_neq_implies_less)
      have up: "[i..<n] = i # [i + 1..<n]" using n(1) by (simp add: upt_conv_Cons)
      show ?thesis
        apply (rule exI[of _ n])
        using n busy "1.prems" Inl True up by auto
    qed
  qed
qed

lemma executeWithRetry_run:
  assumes "0 < maxRetries"
  shows "\<exists>n < maxRetries.
             (\<forall>j < n. operation j = Inl SQLITE_BUSY)
           \<and> (operation n = Inl SQLITE_BUSY \<longrightarrow> n = maxRetries - 1)
           \<and> executeWithRetry operation random maxRetries delayMs =
               ((case operation n of Inr v \<Rightarrow> Inr v | Inl e \<Rightarrow> Inl (Some e)),
                map (\<lambda>j. delayMs * 2 ^ j + random j * 50) [0..<n])"
  using executeWithRetry_loop_run [OF assms, of operation random delayMs None "[]"]
  unfolding executeWithRetry_def by auto

text \<open>
  The call with the default parameters makes at most five attempts. Every attempt but the
  last one made threw \<open>SQLITE_BUSY\<close>, and the delay slept after the failed attempt \<open>i\<close>
  (counted from 0) lies between \<open>100 * 2 ^ i\<close> and \<open>100 * 2 ^ i + 50\<close> milliseconds.
  The call returns what the last attempt made returns and throws what it throws.
\<close>

lemma executeWithRetry_backoff:
  assumes "\<forall>i. 0 \<le> random i \<and> random i < 1"
  shows "case executeWithRetry operation random 5 100 of
           (result, slept) \<Rightarrow>
              length slept < 5
            \<and> (\<forall>i < length slept.
                  operation i = Inl SQLITE_BUSY
                \<and> 100 * 2 ^ i \<le> slept ! i \<and> slept ! i \<le> 100 * 2 ^ i + 50)
            \<and> result = (case operation (length slept) of Inr v \<Rightarrow> Inr v | Inl e \<Rightarrow> Inl (Some e))
            \<and> (operation (length slept) = Inl SQLITE_BUSY \<longrightarrow> length slept = 4)"
proof -
  obtain n where n: "n < 5" "\<forall>j < n. operation j = Inl SQLITE_BUSY"
      "operation n = Inl SQLITE_BUSY \<longrightarrow> n = 5 - 1"
      "executeWithRetry operation random 5 100 =
         ((case operation n of Inr v \<Rightarrow> Inr v | Inl e \<Rightarrow> Inl (Some e)),
          map (\<lambda>j. 100 * 2 ^ j + random j * 50) [0..<n])"
    using executeWithRetry_run [of 5 operation random 100] by auto
  have jitter: "0 \<le> random i * 50 \<and> random i * 50 \<le> 50" for i
    using assms [rule_format, of i] by simp
  have "100 * 2 ^ i \<le> 100 * 2 ^ i + random i * 50 \<and> 100 * 2 ^ i + random i * 50 \<le> 100 * 2 ^ i + 50" for i
    using jitter [of i] by simp
  then show ?thesis
    using n by simp
qed

subsection \<open>The mutating methods\<close>

lemma mutation_backoff:
  assumes "\<forall>i. 0 \<le> math_random d i \<and> math_random d i < 1"
  shows "case mutation statement d of
           (thrown, d') \<Rightarrow>
             (\<exists>slept. timeouts d' = timeouts d @ slept
                \<and> length slept < 5
                \<and> (\<forall>i < length slept.
                      execute statement d i = Inl SQLITE_BUSY
                    \<and> 100 * 2 ^ i \<le> slept ! i \<and> slept ! i \<le> 100 * 2 ^ i + 50)
                \<and> engine_errors d' = drop (length slept + 1) (engine_errors d)
                \<and> (case execute statement d (length slept) of
                     Inr t \<Rightarrow> thrown = None \<and> tables d' = t
                   | Inl error \<Rightarrow>
                       thrown = Some (StoreError (Some error)) \<and> tables d' = tables d
                     \<and> (error = SQLITE_BUSY \<longrightarrow> length slept = 4)))"
proof -
  obtain result slept where run: "executeWithRetry (execute statement d) (math_random d) 5 100 = (result, slept)"
    by (cases "executeWithRetry (execute statement d) (math_random d) 5 100")
  from executeWithRetry_backoff [OF assms, of "execute statement d"] run
  have p: "length slept < 5"
      "\<forall>i < length slept. execute statement d i = Inl SQLITE_BUSY
           \<and> 100 * 2 ^ i \<le> slept ! i \<and> slept ! i \<le> 100 * 2 ^ i + 50"
      "result = (case execute statement d (length slept) of Inr v \<Rightarrow> Inr v | Inl e \<Rightarrow> Inl (Some e))"
      "execute statement d (length slept) = Inl SQLITE_BUSY \<longrightarrow> length slept = 4"
    by simp_all
  show ?thesis
  proof (cases "execute statement d (length slept)")
    case (Inr t)
    with run p show ?thesis
      by (simp add: mutation_def)
  next
    case (Inl e)
    with run p show ?thesis
      by (simp add: mutation_def)
  qed
qed

text \<open>
  Claim C7. Every call of a method of the store that writes rows (\<open>saveMessage\<close>,
  \<open>updateMessageFirstReceipt\<close>, \<open>saveMessageReceipt\<close>, \<open>updateChannelPreference\<close>,
  \<open>updateProtocolPerformance\<close>) makes at most five attempts to execute its statement;
  the values of \<open>Math.random()\<close> lie in \<open>[0, 1)\<close>. Every attempt that is followed by
  another one threw \<open>SQLITE_BUSY\<close>, and the delay slept after the failed attempt \<open>i\<close>
  (counted from 0) lies between \<open>100 * 2 ^ i\<close> and \<open>100 * 2 ^ i + 50\<close> milliseconds.
  The call returns when its last attempt executes the statement, and it throws the error
  of its last attempt and leaves the tables as they were otherwise: an error other than
  \<open>SQLITE_BUSY\<close> is thrown by the attempt that meets it, \<open>SQLITE_BUSY\<close> only by the
  fifth attempt.
\<close>

theorem store_mutation_retry_policy:
  assumes "\<forall>i. 0 \<le> math_random d i \<and> math_random d i < 1"
  shows "case invoke call d of
           (thrown, d') \<Rightarrow>
             (\<exists>slept. timeouts d' = timeouts d @ slept
                \<and> length slept < 5
                \<and> (\<forall>i < length slept.
                      execute (statement_of call) d i = Inl SQLITE_BUSY
                    \<and> 100 * 2 ^ i \<le> slept ! i \<and> slept ! i \<le> 100 * 2 ^ i + 50)
                \<and> engine_errors d' = drop (length slept + 1) (engine_errors d)
                \<and> (case execute (statement_of call) d (length slept) of
                     Inr t \<Rightarrow> thrown = None \<and> tables d' = t
                   | Inl error \<Rightarrow>
                       thrown = Some (StoreError (Some error)) \<and> tables d' = tables d
                     \<and> (error = SQLITE_BUSY \<longrightarrow> length slept = 4)))"
proof -
  have "invoke call = mutation (statement_of call)"
    by (cases call)
       (auto simp: saveMessage_def updateMessageFirstReceipt_def saveMessageReceipt_def
          updateChannelPreference_def updateProtocolPerformance_def intro!: arg_cong [where f = mutation])
  with mutation_backoff [OF assms, of "statement_of call"] show ?thesis by simp
qed

theorem store_mutation_retry_policy_witness:
  "(\<forall>i. 0 \<le> math_random demo_busy i \<and> math_random demo_busy i < 1)
   \<and> fst (saveMessageReceipt demo_receipt demo_busy) = None
   \<and> timeouts (snd (saveMessageReceipt demo_receipt demo_busy)) = [125, 225]
   \<and> engine_errors (snd (saveMessageReceipt demo_receipt demo_busy)) = [Some SQLITE_BUSY]
   \<and> message_receipts (tables (snd (saveMessageReceipt demo_receipt demo_busy))) = [demo_receipt]
   \<and> fst (saveMessage (demo_message ''u2'' ''hi'')
            (demo_busy\<lparr>engine_errors := replicate 5 (Some SQLITE_BUSY)\<rparr>)) = Some (StoreError (Some SQLITE_BUSY))
   \<and> timeouts (snd (saveMessage (demo_message ''u2'' ''hi'')
            (demo_busy\<lparr>engine_errors := replicate 5 (Some SQLITE_BUSY)\<rparr>))) = [125, 225, 425, 825]"
proof -
  have h: "\<forall>i. 0 \<le> math_random demo_busy i \<and> math_random demo_busy i < 1"
    by (simp add: demo_busy_def)
  have run: "saveMessageReceipt demo_receipt demo_busy =
      (None, \<lparr>tables = demo_tables\<lparr>messages := [demo_message ''u1'' ''hi''], message_receipts := [demo_receipt]\<rparr>,
               engine_errors = [Some SQLITE_BUSY], math_random = (\<lambda>i. 1 / 2), timeouts = [125, 225]\<rparr>)"
    by (simp add: saveMessageReceipt_def mutation_def executeWithRetry_def execute_def
          insert_message_receipt_def demo_busy_def demo_receipt_def demo_tables_def demo_message_def)
  have exhausted: "saveMessage (demo_message ''u2'' ''hi'') (demo_busy\<lparr>engine_errors := replicate 5 (Some SQLITE_BUSY)\<rparr>) =
      (Some (StoreError (Some SQLITE_BUSY)),
       \<lparr>tables = demo_tables\<lparr>messages := [demo_message ''u1'' ''hi'']\<rparr>,
        engine_errors = [], math_random = (\<lambda>i. 1 / 2), timeouts = [125, 225, 425, 825]\<rparr>)"
    by (simp add: saveMessage_def mutation_def executeWithRetry_def execute_def
          demo_busy_def numeral_eq_Suc)
  show ?thesis
    using store_mutation_retry_policy [OF h, of "SaveMessageReceipt demo_receipt"] h
    by (simp add: run exhausted)
qed

lemma mutation_outcome:
  "(fst (mutation statement d) = None \<and> statement (tables d) = Inr (tables (snd (mutation statement d))))
   \<or> ((\<exists>error. fst (mutation statement d) = Some (StoreError error))
       \<and> tables (snd (mutation statement d)) = tables d)"
proof -
  obtain n where n: "n < 5"
      "executeWithRetry (execute statement d) (math_random d) 5 100 =
         ((case execute statement d n of Inr v \<Rightarrow> Inr v | Inl e \<Rightarrow> Inl (Some e)),
          map (\<lambda>j. 100 * 2 ^ j + math_random d j * 50) [0..<n])"
    using executeWithRetry_run [of 5 "execute statement d" "math_random d" 100] by auto
  show ?thesis
  proof (cases "execute statement d n")
    case (Inr t)
    then have "statement (tables d) = Inr t"
      by (auto simp: execute_def split: option.splits if_splits)
    with Inr n show ?thesis
      by (auto simp: mutation_def)
  next
    case (Inl e)
    with n show ?thesis
      by (auto simp: mutation_def)
  qed
qed

lemma mutation_tables:
  "tables (snd (mutation (\<lambda>t. Inr (f t)) d)) =
     (if fst (mutation (\<lambda>t. Inr (f t)) d) = None then f (tables d) else tables d)"
  using mutation_outcome [of "\<lambda>t. Inr (f t)" d] by auto

lemma mutation_reliable:
  assumes "engine_errors d = []"
  shows "mutation (\<lambda>t. Inr (f t)) d = (None, d\<lparr>tables := f (tables d)\<rparr>)"
proof -
  have "executeWithRetry (execute (\<lambda>t. Inr (f t)) d) (math_random d) 5 100 = (Inr (f (tables d)), [])"
    using assms by (simp add: executeWithRetry_def execute_def)
  then show ?thesis
    using assms by (cases d) (simp add: mutation_def)
qed

lemma saveMessageReceipt_reliable:
  assumes "engine_errors d = []"
  shows "saveMessageReceipt receipt d =
           (case insert_message_receipt receipt (tables d) of
              Inr t \<Rightarrow> (None, d\<lparr>tables := t\<rparr>)
            | Inl error \<Rightarrow> (Some (StoreError (Some error)), d))"
proof (cases "insert_message_receipt receipt (tables d)")
  case (Inr t)
  then have "executeWithRetry (execute (insert_message_receipt receipt) d) (math_random d) 5 100 = (Inr t, [])"
    using assms by (simp add: executeWithRetry_def execute_def)
  with Inr show ?thesis
    using assms by (cases d) (simp add: saveMessageReceipt_def mutation_def)
next
  case (Inl e)
  then have e: "e = SQLITE_CONSTRAINT"
    by (simp add: insert_message_receipt_def split: if_splits)
  with Inl have "executeWithRetry (execute (insert_message_receipt receipt) d) (math_random d) 5 100 =
      (Inl (Some SQLITE_CONSTRAINT), [])"
    using assms by (simp add: executeWithRetry_def execute_def)
  with Inl e show ?thesis
    using assms by (cases d) (simp add: saveMessageReceipt_def mutation_def)
qed

subsection \<open>saveMessage\<close>

lemma count_unique:
  assumes "distinct (map f xs)" and "x \<in> set xs" and "f x = u"
  shows "length (filter (\<lambda>y. f y = u) xs) = 1"
  using assms
proof (induction xs)
  case Nil
  then show ?case by simp
next
  case (Cons a xs)
  show ?case
  proof (cases "f a = u")
    case True
    then have "f a \<notin> f ` set xs" using Cons.prems(1) by simp
    then have "\<forall>y \<in> set xs. f y \<noteq> u" using True by (metis imageI)
    then have "filter (\<lambda>y. f y = u) xs = []" by (simp add: filter_empty_conv)
    with True show ?thesis by simp
  next
    case False
    then have "x \<in> set xs" using Cons.prems by auto
    with Cons False show ?thesis by simp
  qed
qed

lemma insert_or_ignore_message_distinct:
  "distinct (map m_uuid (messages t)) \<Longrightarrow> distinct (map m_uuid (messages (insert_or_ignore_message message t)))"
  by (auto simp: insert_or_ignore_message_def)

lemma insert_or_ignore_message_present:
  "\<exists>row \<in> set (messages (insert_or_ignore_message message t)). m_uuid row = m_uuid message"
  by (auto simp: insert_or_ignore_message_def)

lemma insert_or_ignore_message_noop:
  "\<exists>row \<in> set (messages t). m_uuid row = m_uuid message \<Longrightarrow> insert_or_ignore_message message t = t"
  by (simp add: insert_or_ignore_message_def)

lemma saveMessage_noop:
  assumes "\<exists>row \<in> set (messages (tables d)). m_uuid row = m_uuid message"
  shows "tables (snd (saveMessage message d)) = tables d"
  using assms by (simp add: saveMessage_def mutation_tables insert_or_ignore_message_noop)

lemma saveMessage_each_noop:
  assumes "\<exists>row \<in> set (messages (tables d)). m_uuid row = u"
      and "\<forall>message \<in> set later. m_uuid message = u"
  shows "tables (saveMessage_each later d) = tables d"
  using assms
proof (induction later arbitrary: d)
  case Nil
  then show ?case by simp
next
  case (Cons message later)
  have same: "tables (snd (saveMessage message d)) = tables d"
    using Cons.prems by (intro saveMessage_noop) auto
  have "tables (saveMessage_each later (snd (saveMessage message d))) = tables (snd (saveMessage message d))"
    using Cons.prems same by (intro Cons.IH) auto
  with same show ?case by simp
qed

text \<open>
  Claim C8. \<open>saveMessage\<close> is idempotent on the uuid. Take a messages table that
  respects its UNIQUE constraint and \<open>N\<close> invocations (\<open>first\<close>, then \<open>later\<close>) with
  messages that carry the uuid \<open>u\<close>, the first of which returns (after however many
  retries). Then the table ends with exactly one row of uuid \<open>u\<close>, and it is the table
  the first invocation left: every later invocation, whether it returns or throws, is a
  no-op on the messages table.
\<close>

theorem saveMessage_idempotent:
  assumes "distinct (map m_uuid (messages (tables d)))"
      and "m_uuid first = u"
      and "\<forall>message \<in> set later. m_uuid message = u"
      and "fst (saveMessage first d) = None"
  shows "length (filter (\<lambda>row. m_uuid row = u) (messages (tables (saveMessage_each (first # later) d)))) = 1
       \<and> messages (tables (saveMessage_each (first # later) d)) = messages (tables (snd (saveMessage first d)))"
proof -
  let ?d1 = "snd (saveMessage first d)"
  have t1: "tables ?d1 = insert_or_ignore_message first (tables d)"
    using assms(4) by (simp add: saveMessage_def mutation_tables)
  have present: "\<exists>row \<in> set (messages (tables ?d1)). m_uuid row = u"
    using insert_or_ignore_message_present [of first "tables d"] assms(2) t1 by simp
  have dist: "distinct (map m_uuid (messages (tables ?d1)))"
    using assms(1) t1 by (simp add: insert_or_ignore_message_distinct)
  have one: "length (filter (\<lambda>row. m_uuid row = u) (messages (tables ?d1))) = 1"
    using present dist count_unique [of m_uuid "messages (tables ?d1)"] by blast
  have "tables (saveMessage_each later ?d1) = tables ?d1"
    using present assms(3) by (rule saveMessage_each_noop)
  with one show ?thesis by simp
qed

theorem saveMessage_idempotent_witness:
  "length (filter (\<lambda>row. m_uuid row = ''u1'')
     (messages (tables (saveMessage_each [demo_message ''u1'' ''hi'', demo_message ''u1'' ''hi'', demo_message ''u1'' ''other'']
        \<lparr>tables = demo_tables, engine_errors = [Some SQLITE_BUSY, None, Some (SQLITE_ERROR ''disk'')], math_random = (\<lambda>i. 0), timeouts = []\<rparr>)))) = 1
   \<and> messages (tables (saveMessage_each [demo_message ''u1'' ''hi'', demo_message ''u1'' ''hi'', demo_message ''u1'' ''other'']
        \<lparr>tables = demo_tables, engine_errors = [Some SQLITE_BUSY, None, Some (SQLITE_ERROR ''disk'')], math_random = (\<lambda>i. 0), timeouts = []\<rparr>))
       = [demo_message ''u1'' ''hi'']"
proof -
  let ?d = "\<lparr>tables = demo_tables, engine_errors = [Some SQLITE_BUSY, None, Some (SQLITE_ERROR ''disk'')], math_random = (\<lambda>i. 0), timeouts = []\<rparr>"
  have run: "saveMessage (demo_message ''u1'' ''hi'') ?d =
      (None, \<lparr>tables = demo_tables\<lparr>messages := [demo_message ''u1'' ''hi'']\<rparr>,
               engine_errors = [Some (SQLITE_ERROR ''disk'')], math_random = (\<lambda>i. 0), timeouts = [100]\<rparr>)"
    by (simp add: saveMessage_def mutation_def executeWithRetry_def execute_def
          insert_or_ignore_message_def demo_tables_def demo_message_def)
  have h1: "distinct (map m_uuid (messages (tables ?d)))" by (simp add: demo_tables_def)
  have h2: "m_uuid (demo_message ''u1'' ''hi'') = ''u1''" by (simp add: demo_message_def)
  have h3: "\<forall>message \<in> set [demo_message ''u1'' ''hi'', demo_message ''u1'' ''other'']. m_uuid message = ''u1''"
    by (simp add: demo_message_def)
  have h4: "fst (saveMessage (demo_message ''u1'' ''hi'') ?d) = None" by (simp add: run)
  show ?thesis
    using saveMessage_idempotent [OF h1 h2 h3 h4] run by (simp add: demo_message_def)
qed

subsection \<open>updateProtocolPerformance\<close>

lemma find_map_update:
  assumes "\<And>row. P (g row) = P row"
  shows "find P (map (\<lambda>row. if P row then g row else row) rows) = map_option g (find P rows)"
  using assms by (induction rows) auto

lemma upsert_protocol_performance_existing:
  assumes "find (\<lambda>row. pp_protocol row = p) (protocol_performance t) = Some row"
  shows "find (\<lambda>row. pp_protocol row = p)
           (protocol_performance (upsert_protocol_performance p acked latencyMs now t)) =
         Some (on_conflict_performance (if acked then 1 else 0) (number_or_null latencyMs) now row)"
proof -
  have ex: "\<exists>row \<in> set (protocol_performance t). pp_protocol row = p"
    using assms by (auto simp: find_Some_iff)
  have keep: "\<And>r. (pp_protocol (on_conflict_performance (if acked then 1 else 0) (number_or_null latencyMs) now r) = p)
                 = (pp_protocol r = p)"
    by (simp add: on_conflict_performance_def)
  show ?thesis
    using ex assms
      find_map_update [of "\<lambda>row. pp_protocol row = p"
        "on_conflict_performance (if acked then 1 else 0) (number_or_null latencyMs) now"
        "protocol_performance t", OF keep]
    by (simp add: upsert_protocol_performance_def Let_def)
qed

lemma updateProtocolPerformance_supplied:
  assumes "find (\<lambda>row. pp_protocol row = p) (protocol_performance (tables d)) = Some row"
      and "fst (updateProtocolPerformance p acked (Some l) now d) = None"
      and "l \<noteq> 0"
  shows "\<exists>row'. find (\<lambda>row. pp_protocol row = p)
            (protocol_performance (tables (snd (updateProtocolPerformance p acked (Some l) now d)))) = Some row'
         \<and> pp_totalSent row' = pp_totalSent row + 1
         \<and> pp_totalAcked row' = pp_totalAcked row + (if acked then 1 else 0)
         \<and> pp_avgLatencyMs row' =
             (case pp_avgLatencyMs row of None \<Rightarrow> Some (real_of_int l) | Some avg \<Rightarrow> Some ((avg + real_of_int l) / 2))"
  using assms upsert_protocol_performance_existing [OF assms(1), of acked "Some l" now]
  by (simp add: updateProtocolPerformance_def mutation_tables on_conflict_performance_def)

lemma updateProtocolPerformance_not_supplied:
  assumes "find (\<lambda>row. pp_protocol row = p) (protocol_performance (tables d)) = Some row"
      and "fst (updateProtocolPerformance p acked None now d) = None"
  shows "\<exists>row'. find (\<lambda>row. pp_protocol row = p)
            (protocol_performance (tables (snd (updateProtocolPerformance p acked None now d)))) = Some row'
         \<and> pp_totalSent row' = pp_totalSent row + 1
         \<and> pp_totalAcked row' = pp_totalAcked row + (if acked then 1 else 0)
         \<and> pp_avgLatencyMs row' = pp_avgLatencyMs row"
  using assms upsert_protocol_performance_existing [OF assms(1), of acked None now]
  by (simp add: updateProtocolPerformance_def mutation_tables on_conflict_performance_def)

lemma updateProtocolPerformance_odd_sum:
  "protocol_performance (tables (snd (updateProtocolPerformance ''MQTT'' True (Some 5) 2000 demo_performance))) =
     [\<lparr>pp_protocol = ''MQTT'', pp_totalSent = 4, pp_totalAcked = 3,
       pp_avgLatencyMs = Some (15 / 2), pp_lastUsedAt = Some 2000\<rparr>]"
  by (simp add: updateProtocolPerformance_def mutation_reliable demo_performance_def demo_tables_def
        upsert_protocol_performance_def on_conflict_performance_def)

text \<open>
  Claim C5. The counters are incremented as claimed, and the average is unchanged when no
  latency is supplied (lemma \<open>updateProtocolPerformance_not_supplied\<close>). A supplied
  latency other than \<open>0\<close> gives the average \<open>(prior + L) / 2\<close>, computed in floating
  point and not rounded down: 7.5 for the prior average 10 and the latency 5 (lemmas
  \<open>updateProtocolPerformance_supplied\<close> and \<open>updateProtocolPerformance_odd_sum\<close>). A
  supplied latency of \<open>0\<close> is bound as \<open>latencyMs || null\<close>, that is as NULL: on the
  row of MQTT with the average 10 the average stays 10 instead of becoming 5, and the new
  row of IROH gets the average NULL instead of 0.
\<close>

theorem updateProtocolPerformance_zero_latency:
  "protocol_performance (tables (snd (updateProtocolPerformance ''MQTT'' True (Some 0) 2000 demo_performance))) =
     [\<lparr>pp_protocol = ''MQTT'', pp_totalSent = 4, pp_totalAcked = 3,
       pp_avgLatencyMs = Some 10, pp_lastUsedAt = Some 2000\<rparr>]
   \<and> protocol_performance (tables (snd (updateProtocolPerformance ''IROH'' False (Some 0) 2000 demo_performance))) =
     [\<lparr>pp_protocol = ''MQTT'', pp_totalSent = 3, pp_totalAcked = 2,
       pp_avgLatencyMs = Some 10, pp_lastUsedAt = Some 1000\<rparr>,
      \<lparr>pp_protocol = ''IROH'', pp_totalSent = 1, pp_totalAcked = 0,
       pp_avgLatencyMs = None, pp_lastUsedAt = Some 2000\<rparr>]"
  by (simp add: updateProtocolPerformance_def mutation_reliable demo_performance_def demo_tables_def
        upsert_protocol_performance_def on_conflict_performance_def)

subsection \<open>updateChannelPreference\<close>

lemma upsert_channel_preference_existing:
  assumes "find (same_channel pref) (channel_preferences t) = Some row"
  shows "find (same_channel pref) (channel_preferences (upsert_channel_preference pref t)) =
         Some (on_conflict_preference (excluded_preference pref) row)"
proof -
  have ex: "\<exists>row \<in> set (channel_preferences t). same_channel pref row"
    using assms by (auto simp: find_Some_iff)
  have keep: "\<And>r. same_channel pref (on_conflict_preference (excluded_preference pref) r) = same_channel pref r"
    by (simp add: on_conflict_preference_def same_channel_def)
  show ?thesis
    using ex assms
      find_map_update [of "same_channel pref" "on_conflict_preference (excluded_preference pref)"
        "channel_preferences t", OF keep]
    by (simp add: upsert_channel_preference_def Let_def)
qed

lemma updateChannelPreference_frame:
  assumes "find (same_channel pref) (channel_preferences (tables d)) = Some row"
      and "fst (updateChannelPreference pref d) = None"
  shows "\<exists>row'. find (same_channel pref) (channel_preferences (tables (snd (updateChannelPreference pref d)))) = Some row'
         \<and> cp_isWorking row' = cp_isWorking pref
         \<and> cp_cannotUse row' = cp_cannotUse pref
         \<and> cp_lastAckAt row' = number_or_null (cp_lastAckAt pref)
         \<and> cp_avgLatencyMs row' = number_or_null (cp_avgLatencyMs pref)
         \<and> cp_preferenceOrder row' =
             (case number_or_null (cp_preferenceOrder pref) of Some n \<Rightarrow> Some n | None \<Rightarrow> cp_preferenceOrder row)"
  using assms upsert_channel_preference_existing [OF assms(1)]
  by (simp add: updateChannelPreference_def mutation_tables on_conflict_preference_def excluded_preference_def)

lemma updateChannelPreference_stated_resets:
  assumes "find (same_channel (stated_preference message pref)) (channel_preferences (tables d)) = Some row"
      and "fst (updateChannelPreference (stated_preference message pref) d) = None"
  shows "\<exists>row'. find (same_channel (stated_preference message pref))
            (channel_preferences (tables (snd (updateChannelPreference (stated_preference message pref) d)))) = Some row'
         \<and> cp_lastAckAt row' = None \<and> cp_avgLatencyMs row' = None"
  using updateChannelPreference_frame [OF assms]
  by (auto simp: stated_preference_def)

text \<open>
  Claim C9. On an existing row the upsert keeps \<open>preference_order\<close> when none is
  supplied and overwrites the other four columns, with NULL for an absent value (lemma
  \<open>updateChannelPreference_frame\<close>), and an upsert of a stated preference resets
  \<open>last_ack_at\<close> and \<open>avg_latency_ms\<close> to NULL (lemma
  \<open>updateChannelPreference_stated_resets\<close>). But a supplied value passes through
  \<open>x || null\<close>: the supplied average latency \<open>0\<close> is stored as NULL, not as 0.
\<close>

theorem updateChannelPreference_zero_latency:
  "channel_preferences (tables (snd (updateChannelPreference
       \<lparr>cp_identity = ''bob'', cp_protocol = ''nostr'', cp_isWorking = True,
        cp_lastAckAt = Some 6000, cp_avgLatencyMs = Some 0,
        cp_preferenceOrder = None, cp_cannotUse = False\<rparr> demo_preferences))) =
     [\<lparr>cp_identity = ''bob'', cp_protocol = ''nostr'', cp_isWorking = True,
       cp_lastAckAt = Some 6000, cp_avgLatencyMs = None,
       cp_preferenceOrder = Some 1, cp_cannotUse = False\<rparr>]"
  by (simp add: updateChannelPreference_def mutation_reliable demo_preferences_def demo_tables_def
        upsert_channel_preference_def on_conflict_preference_def excluded_preference_def same_channel_def)

section \<open>Properties of handleIncomingMessage and sendMessage\<close>

subsection \<open>A duplicate arrival\<close>

lemma on_db_fst: "fst (on_db method b) = fst (method (db b))"
  by (simp add: on_db_def split: prod.splits)

lemma on_db_snd: "snd (on_db method b) = b\<lparr>db := snd (method (db b))\<rparr>"
  by (simp add: on_db_def split: prod.splits)

lemma on_db_eq: "on_db method b = (fst (method (db b)), b\<lparr>db := snd (method (db b))\<rparr>)"
  by (simp add: on_db_def split: prod.splits)

lemma on_db_mutation_reliable:
  "engine_errors (db b) = [] \<Longrightarrow>
   on_db (mutation (\<lambda>t. Inr (f t))) b = (None, b\<lparr>db := (db b)\<lparr>tables := f (tables (db b))\<rparr>\<rparr>)"
  by (simp add: on_db_eq mutation_reliable)

lemma save_receipt_eq:
  "save_receipt message via server b =
     (fst (saveMessageReceipt (receipt_of message via server b) (db b)),
      b\<lparr>clock_reads := clock_reads b + 2,
        db := snd (saveMessageReceipt (receipt_of message via server b) (db b))\<rparr>)"
  by (simp add: save_receipt_def on_db_eq Date_now_def)

lemma saveMessageReceipt_outcome:
  "(fst (saveMessageReceipt receipt d) = None
      \<and> (\<exists>row \<in> set (messages (tables d)). m_uuid row = r_messageUuid receipt)
      \<and> tables (snd (saveMessageReceipt receipt d)) =
          (tables d)\<lparr>message_receipts := message_receipts (tables d) @
             [receipt\<lparr>r_server := string_or_null (r_server receipt)\<rparr>]\<rparr>)
   \<or> ((\<exists>error. fst (saveMessageReceipt receipt d) = Some (StoreError error))
       \<and> tables (snd (saveMessageReceipt receipt d)) = tables d)"
  using mutation_outcome [of "insert_message_receipt receipt" d]
  by (auto simp: saveMessageReceipt_def insert_message_receipt_def split: if_splits)

lemma saveMessageReceipt_tables:
  "tables (snd (saveMessageReceipt receipt d)) =
     (if fst (saveMessageReceipt receipt d) = None
      then (tables d)\<lparr>message_receipts := message_receipts (tables d) @
             [receipt\<lparr>r_server := string_or_null (r_server receipt)\<rparr>]\<rparr>
      else tables d)"
  using saveMessageReceipt_outcome [of receipt d] by auto

lemma saveMessageReceipt_returns:
  assumes "engine_errors d = []"
  shows "fst (saveMessageReceipt receipt d) = None
           \<longleftrightarrow> (\<exists>row \<in> set (messages (tables d)). m_uuid row = r_messageUuid receipt)"
  using assms by (simp add: saveMessageReceipt_reliable insert_message_receipt_def)

lemma handleIncomingMessage_duplicate:
  "uuid message \<in> seenMessageUuids b \<Longrightarrow>
   handleIncomingMessage env message via server b = save_receipt message via server b"
  by (simp add: handleIncomingMessage_def)

text \<open>
  An arrival whose uuid is already in the seen set: the broadcaster after the call is the
  broadcaster before it but for the clock (read twice) and the store. The store gets the
  receipt row when the insert returns and is unchanged when it throws; on a store that
  raises no error the insert returns exactly when the messages table holds a row of the
  uuid.
\<close>

lemma duplicate_arrival:
  assumes "uuid message \<in> seenMessageUuids b"
  shows "case handleIncomingMessage env message via server b of
           (thrown, b') \<Rightarrow>
              b' = b\<lparr>clock_reads := clock_reads b + 2, db := db b'\<rparr>
            \<and> tables (db b') =
                (if thrown = None
                 then (tables (db b))\<lparr>message_receipts := message_receipts (tables (db b)) @
                        [(receipt_of message via server b)\<lparr>r_server := string_or_null server\<rparr>]\<rparr>
                 else tables (db b))
            \<and> (engine_errors (db b) = [] \<longrightarrow>
                 (thrown = None \<longleftrightarrow> (\<exists>row \<in> set (messages (tables (db b))). m_uuid row = uuid message)))"
  using assms saveMessageReceipt_returns [of "db b" "receipt_of message via server b"]
  by (simp add: handleIncomingMessage_duplicate save_receipt_eq saveMessageReceipt_tables)
     (simp add: receipt_of_def)

subsection \<open>Quiet steps\<close>

lemma quiet_refl: "quiet b b"
  by (simp add: quiet_def)

lemma quiet_trans: "quiet b b' \<Longrightarrow> quiet b' b'' \<Longrightarrow> quiet b b''"
  by (cases b, cases b', cases b'') (simp add: quiet_def)

lemma quiet_update:
  "quiet b (b\<lparr>db := d, clock_reads := c, handler_calls := h\<rparr>)"
  "quiet b (b\<lparr>db := d\<rparr>)" "quiet b (b\<lparr>clock_reads := c\<rparr>)" "quiet b (b\<lparr>handler_calls := h\<rparr>)"
  by (simp_all add: quiet_def)

lemma quiet_fields:
  assumes "quiet b b'"
  shows "seenMessageUuids b' = seenMessageUuids b" "messageHandlers b' = messageHandlers b"
    "myMagnetLink b' = myMagnetLink b" "options b' = options b"
    "xmtpClient b' = xmtpClient b" "nostrRelays b' = nostrRelays b" "wakuNode b' = wakuNode b"
    "mqttClients b' = mqttClients b" "irohNode b' = irohNode b"
    "clock b' = clock b" "uuid_source b' = uuid_source b" "uuids_drawn b' = uuids_drawn b"
    "broadcast_calls b' = broadcast_calls b" "driver_sends b' = driver_sends b"
    "console_errors b' = console_errors b"
  using assms by (cases b, cases b', simp add: quiet_def)+

lemma quiet_step_on_db: "quiet_step (on_db method)"
  by (simp add: quiet_step_def on_db_snd quiet_update)

lemma quiet_step_and_then:
  assumes "quiet_step f" and "quiet_step g"
  shows "quiet_step (and_then f g)"
  unfolding quiet_step_def
proof
  fix b
  obtain r b1 where f: "f b = (r, b1)" by (cases "f b")
  have q1: "quiet b b1" using assms(1) f by (auto simp: quiet_step_def dest: spec [of _ b])
  show "quiet b (snd (and_then f g b))"
  proof (cases r)
    case None
    have "quiet b1 (snd (g b1))" using assms(2) by (simp add: quiet_step_def)
    with q1 have "quiet b (snd (g b1))" by (rule quiet_trans)
    with f None show ?thesis by (simp add: and_then_def)
  next
    case (Some e)
    with f q1 show ?thesis by (simp add: and_then_def)
  qed
qed

lemma quiet_step_after:
  assumes "quiet_step f" and "\<And>b. quiet b (g b)"
  shows "quiet_step (\<lambda>b. f (g b))"
  using assms unfolding quiet_step_def by (meson quiet_trans)

lemma quiet_step_save_incoming: "quiet_step (save_incoming message via)"
  by (simp add: quiet_step_def save_incoming_def on_db_snd Date_now_def quiet_def)

lemma quiet_step_save_receipt: "quiet_step (save_receipt message via server)"
  by (simp add: quiet_step_def save_receipt_def on_db_snd Date_now_def quiet_def)

lemma quiet_step_update_learned: "quiet_step (update_learned message ackMessage)"
  by (simp add: quiet_step_def update_learned_def on_db_snd Date_now_def quiet_def)

lemma quiet_step_update_stated: "quiet_step (update_stated message prefs)"
proof (induction prefs)
  case Nil
  show ?case by (simp add: quiet_step_def quiet_refl)
next
  case (Cons pref prefs)
  have "update_stated message (pref # prefs) =
          and_then (on_db (updateChannelPreference (stated_preference message pref))) (update_stated message prefs)"
    by (rule ext) simp
  with Cons show ?case
    by (simp only: quiet_step_and_then quiet_step_on_db)
qed

lemma quiet_step_skip: "quiet_step (\<lambda>b. (None, b))"
  by (simp add: quiet_step_def quiet_refl)

lemma quiet_step_update_preferences: "quiet_step (update_preferences message)"
proof (cases "type message")
  case Type_message
  then have "update_preferences message = (\<lambda>b. (None, b))"
    by (intro ext) (simp add: update_preferences_def)
  then show ?thesis by (simp add: quiet_step_skip)
next
  case (Type_acknowledgment a)
  then have "update_preferences message =
      and_then (update_learned message a)
        (case channelPreferences a of None \<Rightarrow> (\<lambda>b'. (None, b')) | Some prefs \<Rightarrow> update_stated message prefs)"
    by (intro ext) (simp add: update_preferences_def)
  moreover have "quiet_step (case channelPreferences a of None \<Rightarrow> (\<lambda>b'. (None, b')) | Some prefs \<Rightarrow> update_stated message prefs)"
    by (cases "channelPreferences a") (simp_all add: quiet_step_skip quiet_step_update_stated)
  ultimately show ?thesis
    by (simp add: quiet_step_and_then quiet_step_update_learned)
qed

lemma quiet_notify_handlers: "quiet b (snd (notify_handlers handlers i message via b))"
proof (induction handlers arbitrary: i b)
  case Nil
  show ?case by (simp add: quiet_refl)
next
  case (Cons handler handlers)
  let ?b' = "b\<lparr>handler_calls := handler_calls b @ [(i, message, via)]\<rparr>"
  have q: "quiet b ?b'" by (simp add: quiet_def)
  show ?case
  proof (cases "handler message via")
    case True
    have "quiet ?b' (snd (notify_handlers handlers (i + 1) message via ?b'))" by (rule Cons.IH)
    with q have "quiet b (snd (notify_handlers handlers (i + 1) message via ?b'))" by (rule quiet_trans)
    with True show ?thesis by (simp add: Let_def)
  next
    case False
    with q show ?thesis by (simp add: Let_def)
  qed
qed

lemma quiet_step_notify: "quiet_step (\<lambda>b'. notify_handlers (messageHandlers b') 0 message via b')"
  by (simp add: quiet_step_def quiet_notify_handlers)

lemma and_then_assoc: "and_then f (and_then g h) = and_then (and_then f g) h"
  by (rule ext) (simp add: and_then_def split: prod.splits option.splits)

lemma quiet_step_before_acknowledgment: "quiet_step (before_acknowledgment message via server)"
  unfolding before_acknowledgment_def
  by (intro quiet_step_and_then quiet_step_save_incoming quiet_step_save_receipt
        quiet_step_update_preferences quiet_step_notify)

lemma handleIncomingMessage_first:
  assumes "uuid message \<notin> seenMessageUuids b"
  shows "handleIncomingMessage env message via server b =
           and_then (before_acknowledgment message via server)
             (\<lambda>b'. if \<not> isAcknowledgment message then sendAcknowledgment env message via b' else (None, b'))
             (b\<lparr>seenMessageUuids := insert (uuid message) (seenMessageUuids b)\<rparr>)"
  using assms
  by (simp add: handleIncomingMessage_def before_acknowledgment_def and_then_assoc)


subsection \<open>The acknowledgment and the seen set\<close>

lemma and_then_cases:
  "and_then f g b = (case f b of (Some thrown, b') \<Rightarrow> (Some thrown, b') | (None, b') \<Rightarrow> g b')"
  by (simp add: and_then_def)

lemma save_acknowledgment_eq:
  "save_acknowledgment env original via b =
     (let ack = acknowledgment_of env original via b;
          row = acknowledgment_row env original ack b
      in (fst (saveMessage row (db b)),
          b\<lparr>uuids_drawn := uuids_drawn b + 1, clock_reads := clock_reads b + 1,
            db := snd (saveMessage row (db b))\<rparr>))"
  by (simp add: save_acknowledgment_def on_db_eq Date_now_def randomUUID_def Let_def
        acknowledgment_row_def)

lemma broadcast_eq:
  "broadcast env recipientMagnetLink payload b =
     (case decodeIdentity env recipientMagnetLink of
        None \<Rightarrow>
          (Inl InvalidRecipient,
           b\<lparr>broadcast_calls := broadcast_calls b @ [(recipientMagnetLink, payload)]\<rparr>)
      | Some recipient \<Rightarrow>
          (Inr (fulfilled (map (\<lambda>t. sendVia env t recipient payload (length (broadcast_calls b))) (promises b))),
           b\<lparr>broadcast_calls := broadcast_calls b @ [(recipientMagnetLink, payload)],
             driver_sends := driver_sends b @ map (\<lambda>t. (t, recipientMagnetLink, payload)) (promises b),
             console_errors := console_errors b @
               rejected (map (\<lambda>t. sendVia env t recipient payload (length (broadcast_calls b))) (promises b))\<rparr>))"
  by (cases b) (simp add: broadcast_def send_all_def collect_def Let_def split: option.splits)

lemma broadcast_acknowledgment_eq:
  "broadcast_acknowledgment env original serialized b =
     (None,
      b\<lparr>broadcast_calls := broadcast_calls b @ [(fromMagnetLink original, serialized)],
        driver_sends := driver_sends b @
          (case decodeIdentity env (fromMagnetLink original) of
             None \<Rightarrow> []
           | Some recipient \<Rightarrow> map (\<lambda>t. (t, fromMagnetLink original, serialized)) (promises b)),
        console_errors := console_errors b @
          (case decodeIdentity env (fromMagnetLink original) of
             None \<Rightarrow> [''Failed to send acknowledgment:'']
           | Some recipient \<Rightarrow>
               rejected (map (\<lambda>t. sendVia env t recipient serialized (length (broadcast_calls b))) (promises b)))\<rparr>)"
  by (cases b) (simp add: broadcast_acknowledgment_def broadcast_eq split: option.splits)

lemma sendAcknowledgment_cases:
  "sendAcknowledgment env original via b =
     (case save_acknowledgment env original via b of
        (Some thrown, b') \<Rightarrow> (Some thrown, b')
      | (None, b') \<Rightarrow>
          broadcast_acknowledgment env original
            (serializeMessage env (acknowledgment_of env original via b)) b')"
  by (simp add: sendAcknowledgment_def and_then_def)







subsection \<open>The steps on a store that raises no error\<close>

lemma save_incoming_reliable:
  assumes "engine_errors (db b) = []"
  shows "save_incoming message via b =
     (None,
      b\<lparr>clock_reads := clock_reads b + 1,
        db := (db b)\<lparr>tables := insert_or_ignore_message (incoming_row message via b) (tables (db b))\<rparr>\<rparr>)"
  using assms
  by (simp add: save_incoming_def on_db_eq Date_now_def saveMessage_def mutation_reliable)

lemma save_receipt_reliable:
  assumes "engine_errors (db b) = []"
      and "\<exists>row \<in> set (messages (tables (db b))). m_uuid row = uuid message"
  shows "save_receipt message via server b =
     (None,
      b\<lparr>clock_reads := clock_reads b + 2,
        db := (db b)\<lparr>tables := (tables (db b))\<lparr>message_receipts := message_receipts (tables (db b)) @
                 [(receipt_of message via server b)\<lparr>r_server := string_or_null server\<rparr>]\<rparr>\<rparr>\<rparr>)"
  using assms
  by (simp add: save_receipt_eq saveMessageReceipt_reliable insert_message_receipt_def receipt_of_def)

lemma save_receipt_rejected:
  assumes "engine_errors (db b) = []"
      and "\<not> (\<exists>row \<in> set (messages (tables (db b))). m_uuid row = uuid message)"
  shows "save_receipt message via server b =
     (Some (StoreError (Some SQLITE_CONSTRAINT)), b\<lparr>clock_reads := clock_reads b + 2\<rparr>)"
  using assms
  by (cases b) (simp add: save_receipt_eq saveMessageReceipt_reliable insert_message_receipt_def receipt_of_def)

lemma update_learned_reliable:
  assumes "engine_errors (db b) = []"
  shows "update_learned message ackMessage b =
     (None,
      b\<lparr>clock_reads := clock_reads b + 2,
        db := (db b)\<lparr>tables := upsert_channel_preference (learned_preference message ackMessage b) (tables (db b))\<rparr>\<rparr>)"
  using assms
  by (simp add: update_learned_def on_db_eq Date_now_def updateChannelPreference_def mutation_reliable)

lemma update_stated_reliable:
  assumes "engine_errors (db b) = []"
  shows "update_stated message prefs b =
     (None, b\<lparr>db := (db b)\<lparr>tables := upsert_stated message prefs (tables (db b))\<rparr>\<rparr>)"
  using assms
proof (induction prefs arbitrary: b)
  case Nil
  then show ?case by simp
next
  case (Cons pref prefs)
  let ?b1 = "b\<lparr>db := (db b)\<lparr>tables := upsert_channel_preference (stated_preference message pref) (tables (db b))\<rparr>\<rparr>"
  have step: "on_db (updateChannelPreference (stated_preference message pref)) b = (None, ?b1)"
    using Cons.prems by (simp add: updateChannelPreference_def on_db_mutation_reliable)
  have "engine_errors (db ?b1) = []" using Cons.prems by simp
  from Cons.IH [OF this] step show ?case
    by (simp add: and_then_def)
qed

lemma update_preferences_reliable:
  assumes "engine_errors (db b) = []" and "type message = Type_acknowledgment ackMessage"
  shows "update_preferences message b =
     (None,
      b\<lparr>clock_reads := clock_reads b + 2,
        db := (db b)\<lparr>tables :=
          upsert_stated message (case channelPreferences ackMessage of None \<Rightarrow> [] | Some prefs \<Rightarrow> prefs)
            (upsert_channel_preference (learned_preference message ackMessage b) (tables (db b)))\<rparr>\<rparr>)"
  using assms
  by (cases "channelPreferences ackMessage")
     (simp_all add: update_preferences_def and_then_def update_learned_reliable update_stated_reliable)

lemma update_preferences_plain:
  "type message = Type_message \<Longrightarrow> update_preferences message b = (None, b)"
  by (simp add: update_preferences_def)

lemma notify_handlers_db:
  "db (snd (notify_handlers handlers i message via b)) = db b
   \<and> clock_reads (snd (notify_handlers handlers i message via b)) = clock_reads b"
  by (induction handlers arbitrary: i b) (simp_all add: Let_def)

lemma upsert_channel_preference_others:
  "messages (upsert_channel_preference pref t) = messages t"
  "message_receipts (upsert_channel_preference pref t) = message_receipts t"
  "protocol_performance (upsert_channel_preference pref t) = protocol_performance t"
  by (simp_all add: upsert_channel_preference_def Let_def)

lemma upsert_channel_preference_only:
  "channel_preferences t = channel_preferences t' \<Longrightarrow>
   channel_preferences (upsert_channel_preference pref t) = channel_preferences (upsert_channel_preference pref t')"
  by (simp add: upsert_channel_preference_def Let_def)

lemma upsert_stated_only:
  "channel_preferences t = channel_preferences t' \<Longrightarrow>
   channel_preferences (upsert_stated message prefs t) = channel_preferences (upsert_stated message prefs t')"
proof (induction prefs arbitrary: t t')
  case Nil
  then show ?case by simp
next
  case (Cons pref prefs)
  show ?case
    using Cons.IH [OF upsert_channel_preference_only [OF Cons.prems]] by simp
qed

lemma insert_or_ignore_message_others:
  "message_receipts (insert_or_ignore_message row t) = message_receipts t"
  "channel_preferences (insert_or_ignore_message row t) = channel_preferences t"
  "protocol_performance (insert_or_ignore_message row t) = protocol_performance t"
  by (simp_all add: insert_or_ignore_message_def)

text \<open>
  The first two steps of the first-seen branch on a store that raises no error: the
  message row is there when the receipt is inserted, so both inserts return.
\<close>

lemma save_incoming_then_receipt:
  assumes "engine_errors (db b) = []"
  shows "\<exists>b2. and_then (save_incoming message via) (save_receipt message via server) b = (None, b2)
           \<and> quiet b b2 \<and> handler_calls b2 = handler_calls b
           \<and> engine_errors (db b2) = [] \<and> clock_reads b2 = clock_reads b + 3
           \<and> channel_preferences (tables (db b2)) = channel_preferences (tables (db b))
           \<and> messages (tables (db b2)) =
               messages (insert_or_ignore_message (incoming_row message via b) (tables (db b)))"
proof -
  let ?t1 = "insert_or_ignore_message (incoming_row message via b) (tables (db b))"
  let ?b1 = "b\<lparr>clock_reads := clock_reads b + 1, db := (db b)\<lparr>tables := ?t1\<rparr>\<rparr>"
  have b1: "save_incoming message via b = (None, ?b1)"
    using assms by (rule save_incoming_reliable)
  have row: "\<exists>row \<in> set (messages (tables (db ?b1))). m_uuid row = uuid message"
    using insert_or_ignore_message_present [of "incoming_row message via b" "tables (db b)"]
    by (simp add: incoming_row_def)
  have e1: "engine_errors (db ?b1) = []" using assms by simp
  let ?b2 = "?b1\<lparr>clock_reads := clock_reads ?b1 + 2,
        db := (db ?b1)\<lparr>tables := (tables (db ?b1))\<lparr>message_receipts := message_receipts (tables (db ?b1)) @
                 [(receipt_of message via server ?b1)\<lparr>r_server := string_or_null server\<rparr>]\<rparr>\<rparr>\<rparr>"
  have b2: "save_receipt message via server ?b1 = (None, ?b2)"
    using e1 row by (rule save_receipt_reliable)
  have run: "and_then (save_incoming message via) (save_receipt message via server) b = (None, ?b2)"
    by (simp only: and_then_def b1 prod.case option.case b2)
  have "quiet b ?b2" by (simp add: quiet_def)
  moreover have "handler_calls ?b2 = handler_calls b" by simp
  moreover have "engine_errors (db ?b2) = []" using assms by simp
  moreover have "clock_reads ?b2 = clock_reads b + 3" by simp
  moreover have "channel_preferences (tables (db ?b2)) = channel_preferences (tables (db b))"
    by (simp add: insert_or_ignore_message_others)
  moreover have "messages (tables (db ?b2)) = messages ?t1" by simp
  ultimately show ?thesis using run by blast
qed

lemma and_then_first:
  "and_then f g b = (None, b2) \<Longrightarrow> and_then f (and_then g h) b = h b2"
  by (auto simp: and_then_def split: prod.splits option.splits)

lemma handleIncomingMessage_first_saved:
  assumes "uuid message \<notin> seenMessageUuids b"
      and "and_then (save_incoming message via) (save_receipt message via server)
             (b\<lparr>seenMessageUuids := insert (uuid message) (seenMessageUuids b)\<rparr>) = (None, b2)"
  shows "handleIncomingMessage env message via server b =
           and_then (update_preferences message)
          (and_then (\<lambda>b'. notify_handlers (messageHandlers b') 0 message via b')
                    (\<lambda>b'. if \<not> isAcknowledgment message then sendAcknowledgment env message via b'
                           else (None, b'))) b2"
  by (simp only: handleIncomingMessage_def assms(1) if_False and_then_first [OF assms(2)])

text \<open>
  Claim C3, as amended. For a first-seen acknowledgment and a store that raises no error,
  the preferences table after the call is the table before it with the learned upsert and
  then the stated upserts applied. The learned upsert carries \<open>isWorking = true\<close>,
  \<open>lastAckAt\<close> and \<open>avgLatencyMs\<close> from the readings of the clock taken for it, and
  \<open>cannotUse = false\<close>; its key is the sender and \<open>receivedVia\<close>, the transport the
  acknowledgment names. The transport \<open>via\<close> on which the acknowledgment arrived does not
  occur in it.
\<close>

theorem acknowledgment_names_the_channel:
  assumes "engine_errors (db b) = []"
      and "uuid message \<notin> seenMessageUuids b"
      and "type message = Type_acknowledgment ackMessage"
  shows "channel_preferences (tables (db (snd (handleIncomingMessage env message via server b)))) =
           channel_preferences
             (upsert_stated message (case channelPreferences ackMessage of None \<Rightarrow> [] | Some prefs \<Rightarrow> prefs)
               (upsert_channel_preference
                  \<lparr>cp_identity = fromMagnetLink message,
                   cp_protocol = receivedVia ackMessage,
                   cp_isWorking = True,
                   cp_lastAckAt = Some (clock b (clock_reads b + 3)),
                   cp_avgLatencyMs = Some (clock b (clock_reads b + 4) - timestamp message),
                   cp_preferenceOrder = None,
                   cp_cannotUse = False\<rparr>
                  (tables (db b))))"
proof -
  let ?b0 = "b\<lparr>seenMessageUuids := insert (uuid message) (seenMessageUuids b)\<rparr>"
  let ?prefs = "case channelPreferences ackMessage of None \<Rightarrow> [] | Some prefs \<Rightarrow> prefs"
  have e0: "engine_errors (db ?b0) = []" using assms(1) by simp
  obtain b2 where b2: "and_then (save_incoming message via) (save_receipt message via server) ?b0 = (None, b2)"
      "quiet ?b0 b2" "engine_errors (db b2) = []" "clock_reads b2 = clock_reads ?b0 + 3"
      "channel_preferences (tables (db b2)) = channel_preferences (tables (db ?b0))"
    using save_incoming_then_receipt [OF e0, of message via server] by blast
  have clock2: "clock b2 = clock b" "clock_reads b2 = clock_reads b + 3"
    using quiet_fields [OF b2(2)] b2(4) by simp_all
  let ?t3 = "upsert_stated message ?prefs (upsert_channel_preference (learned_preference message ackMessage b2) (tables (db b2)))"
  obtain b3 where b3: "update_preferences message b2 = (None, b3)" "tables (db b3) = ?t3"
    using b2(3) assms(3) by (simp add: update_preferences_reliable)
  have learned: "learned_preference message ackMessage b2 =
      \<lparr>cp_identity = fromMagnetLink message, cp_protocol = receivedVia ackMessage, cp_isWorking = True,
       cp_lastAckAt = Some (clock b (clock_reads b + 3)),
       cp_avgLatencyMs = Some (clock b (clock_reads b + 4) - timestamp message),
       cp_preferenceOrder = None, cp_cannotUse = False\<rparr>"
    using clock2 by (simp add: learned_preference_def add.commute)
  have ack: "isAcknowledgment message" using assms(3) by (simp add: isAcknowledgment_def)
  have "tables (db (snd (handleIncomingMessage env message via server b))) = ?t3"
    using b3 ack notify_handlers_db [of "messageHandlers b3" 0 message via b3]
    by (cases "notify_handlers (messageHandlers b3) 0 message via b3")
       (auto simp: handleIncomingMessage_first_saved [OF assms(2) b2(1)] and_then_def split: option.splits)
  moreover have "channel_preferences ?t3 =
      channel_preferences (upsert_stated message ?prefs
        (upsert_channel_preference (learned_preference message ackMessage b2) (tables (db b))))"
    using b2(5) by (intro upsert_stated_only upsert_channel_preference_only) simp
  ultimately show ?thesis by (simp add: learned)
qed


subsection \<open>The automatic acknowledgment\<close>

lemma notify_handlers_return:
  "\<forall>handler \<in> set handlers. handler message via \<Longrightarrow> fst (notify_handlers handlers i message via b) = None"
  by (induction handlers arbitrary: i b) (auto simp: Let_def)

lemma notify_handlers_throw:
  "\<not> (\<forall>handler \<in> set handlers. handler message via) \<Longrightarrow>
   \<exists>j. fst (notify_handlers handlers i message via b) = Some (HandlerError j)"
  by (induction handlers arbitrary: i b) (auto simp: Let_def)

lemma before_acknowledgment_outcome:
  assumes "engine_errors (db b) = []"
  shows "(if \<forall>handler \<in> set (messageHandlers b). handler message via
          then fst (before_acknowledgment message via server b) = None
          else (\<exists>j. fst (before_acknowledgment message via server b) = Some (HandlerError j)))
       \<and> engine_errors (db (snd (before_acknowledgment message via server b))) = []"
proof -
  obtain b2 where b2: "and_then (save_incoming message via) (save_receipt message via server) b = (None, b2)"
      "quiet b b2" "engine_errors (db b2) = []"
    using save_incoming_then_receipt [OF assms, of message via server] by blast
  obtain b3 where b3: "update_preferences message b2 = (None, b3)"
      "engine_errors (db b3) = []" "messageHandlers b3 = messageHandlers b2"
  proof (cases "type message")
    case Type_message
    with b2 that show ?thesis by (simp add: update_preferences_plain)
  next
    case (Type_acknowledgment a)
    with b2 that show ?thesis by (simp add: update_preferences_reliable)
  qed
  have handlers: "messageHandlers b3 = messageHandlers b"
    using b3(3) quiet_fields(2) [OF b2(2)] by simp
  have run: "before_acknowledgment message via server b = notify_handlers (messageHandlers b) 0 message via b3"
    unfolding before_acknowledgment_def and_then_first [OF b2(1)]
    using b3(1) handlers by (simp add: and_then_def)
  have "db (snd (notify_handlers (messageHandlers b) 0 message via b3)) = db b3"
    by (simp add: notify_handlers_db)
  then show ?thesis
    using run b3(2) notify_handlers_return [of "messageHandlers b" message via 0 b3]
      notify_handlers_throw [of "messageHandlers b" message via 0 b3]
    by auto
qed

lemma promises_quiet: "quiet b b' \<Longrightarrow> promises b' = promises b"
  by (simp add: promises_def quiet_fields)

text \<open>
  The acknowledgment on a store that raises no error. An arrival broadcasts an
  acknowledgment exactly when its message is not an acknowledgment, its uuid was not seen
  before and every registered handler returns. Then the run returns and exactly one call
  of \<open>broadcast\<close> is made, to the sender, with an acknowledgment whose \<open>ackOfUuid\<close> is
  the uuid of the message; it is sent on every transport that is enabled and connected,
  whatever \<open>via\<close> is; a sender's magnet link that does not decode is logged, and so is
  every rejected send. In every other case nothing is broadcast, sent or logged: for a
  duplicate, for an acknowledgment, and for a first-seen message one of whose handlers
  throws. After the call the uuid is in the seen set, so later arrivals of it are
  duplicates.
\<close>

lemma acknowledgment_on_reliable_store:
  assumes "engine_errors (db b) = []"
  shows "case handleIncomingMessage env message via server b of
     (thrown, b') \<Rightarrow>
       (if uuid message \<notin> seenMessageUuids b \<and> \<not> isAcknowledgment message
            \<and> (\<forall>handler \<in> set (messageHandlers b). handler message via)
        then thrown = None
           \<and> (\<exists>ack. type ack = Type_acknowledgment
                       \<lparr>ackOfUuid = uuid message, receivedVia = via,
                        channelPreferences = Some (myPreferences env)\<rparr>
                 \<and> fromMagnetLink ack = myMagnetLink b
                 \<and> broadcast_calls b' = broadcast_calls b @ [(fromMagnetLink message, serializeMessage env ack)]
                 \<and> driver_sends b' = driver_sends b @
                     (case decodeIdentity env (fromMagnetLink message) of
                        None \<Rightarrow> []
                      | Some recipient \<Rightarrow>
                          map (\<lambda>t. (t, fromMagnetLink message, serializeMessage env ack)) (promises b))
                 \<and> console_errors b' = console_errors b @
                     (case decodeIdentity env (fromMagnetLink message) of
                        None \<Rightarrow> [''Failed to send acknowledgment:'']
                      | Some recipient \<Rightarrow>
                          rejected (map (\<lambda>t. sendVia env t recipient (serializeMessage env ack)
                                               (length (broadcast_calls b))) (promises b))))
        else broadcast_calls b' = broadcast_calls b \<and> driver_sends b' = driver_sends b
           \<and> console_errors b' = console_errors b)
     \<and> uuid message \<in> seenMessageUuids b'"
proof (cases "uuid message \<in> seenMessageUuids b")
  case True
  then show ?thesis
    by (auto simp: handleIncomingMessage_duplicate save_receipt_eq)
next
  case False
  let ?b0 = "b\<lparr>seenMessageUuids := insert (uuid message) (seenMessageUuids b)\<rparr>"
  obtain r b4 where before: "before_acknowledgment message via server ?b0 = (r, b4)"
    by (cases "before_acknowledgment message via server ?b0")
  have q: "quiet ?b0 b4"
    using quiet_step_before_acknowledgment [of message via server] before
    by (auto simp: quiet_step_def dest: spec [of _ ?b0])
  note f = quiet_fields [OF q] promises_quiet [OF q]
  have e0: "engine_errors (db ?b0) = []" using assms by simp
  from before_acknowledgment_outcome [OF e0, of message via server] before
  have ret: "(if \<forall>handler \<in> set (messageHandlers b). handler message via
              then r = None else (\<exists>j. r = Some (HandlerError j)))"
    and e4: "engine_errors (db b4) = []"
    by (auto split: if_splits)
  show ?thesis
  proof (cases r)
    case (Some e)
    have res: "handleIncomingMessage env message via server b = (Some e, b4)"
      using False before Some by (simp add: handleIncomingMessage_first and_then_cases)
    have "\<not> (\<forall>handler \<in> set (messageHandlers b). handler message via)"
      using ret Some by (auto split: if_splits)
    then show ?thesis
      unfolding res using f by simp
  next
    case None
    have all: "\<forall>handler \<in> set (messageHandlers b). handler message via"
      using ret None by (auto split: if_splits)
    show ?thesis
    proof (cases "isAcknowledgment message")
      case True
      have res: "handleIncomingMessage env message via server b = (None, b4)"
        using False before None True by (simp add: handleIncomingMessage_first and_then_cases)
      show ?thesis
        unfolding res using f True by simp
    next
      case nonack: False
      let ?ack = "acknowledgment_of env message via b4"
      have ack: "type ?ack = Type_acknowledgment
                    \<lparr>ackOfUuid = uuid message, receivedVia = via, channelPreferences = Some (myPreferences env)\<rparr>"
          "fromMagnetLink ?ack = myMagnetLink b"
        using f by (simp_all add: acknowledgment_of_def createAcknowledgment_def)
      obtain r5 b5 where save: "save_acknowledgment env message via b4 = (r5, b5)"
        by (cases "save_acknowledgment env message via b4")
      have b5eq: "b5 = b4\<lparr>uuids_drawn := uuids_drawn b4 + 1, clock_reads := clock_reads b4 + 1, db := db b5\<rparr>"
        using save by (auto simp: save_acknowledgment_eq Let_def)
      have "promises b5 = promises b4"
        by (subst b5eq) (simp add: promises_def)
      then have p5: "promises b5 = promises b" using f by (simp add: promises_def)
      have b5: "broadcast_calls b5 = broadcast_calls b" "driver_sends b5 = driver_sends b"
          "console_errors b5 = console_errors b"
          "seenMessageUuids b5 = insert (uuid message) (seenMessageUuids b)"
        using f by (subst b5eq, simp)+
      have r5: "r5 = None"
        using save e4 by (auto simp: save_acknowledgment_eq Let_def saveMessage_def mutation_reliable)
      have res: "handleIncomingMessage env message via server b =
              broadcast_acknowledgment env message (serializeMessage env ?ack) b5"
        using None nonack False before save r5
        by (simp add: handleIncomingMessage_first and_then_cases sendAcknowledgment_cases)
      let ?sent = "broadcast_acknowledgment env message (serializeMessage env ?ack) b5"
      have fields: "fst ?sent = None"
          "seenMessageUuids (snd ?sent) = insert (uuid message) (seenMessageUuids b)"
          "broadcast_calls (snd ?sent) = broadcast_calls b @ [(fromMagnetLink message, serializeMessage env ?ack)]"
          "driver_sends (snd ?sent) = driver_sends b @
             (case decodeIdentity env (fromMagnetLink message) of
                None \<Rightarrow> []
              | Some recipient \<Rightarrow>
                  map (\<lambda>t. (t, fromMagnetLink message, serializeMessage env ?ack)) (promises b))"
          "console_errors (snd ?sent) = console_errors b @
             (case decodeIdentity env (fromMagnetLink message) of
                None \<Rightarrow> [''Failed to send acknowledgment:'']
              | Some recipient \<Rightarrow>
                  rejected (map (\<lambda>t. sendVia env t recipient (serializeMessage env ?ack)
                                       (length (broadcast_calls b))) (promises b)))"
        using b5 p5 by (simp_all add: broadcast_acknowledgment_eq cong: option.case_cong)
      have cond: "uuid message \<notin> seenMessageUuids b \<and> \<not> isAcknowledgment message
            \<and> (\<forall>handler \<in> set (messageHandlers b). handler message via)"
        using False nonack all by blast
      show ?thesis
        unfolding res case_prod_beta
        apply (subst if_P [OF cond])
        apply (intro conjI)
          apply (rule fields(1))
         apply (rule exI [of _ "acknowledgment_of env message via b4"])
         apply (simp only: ack fields simp_thms)
        apply (simp add: fields(2))
        done
    qed
  qed
qed

subsection \<open>Concrete arrivals\<close>


lemma demo_throwing_arrival:
  "handleIncomingMessage demo_env (demo_chat ''hi'') ''MQTT'' None demo_throwing =
     (Some (HandlerError 0), demo_unacknowledged)"
  by (simp add: handleIncomingMessage_def and_then_def save_incoming_reliable incoming_row_def
        save_receipt_eq saveMessageReceipt_reliable update_preferences_plain
        saveMessage_def mutation_reliable insert_or_ignore_message_def insert_message_receipt_def receipt_of_def
        demo_throwing_def demo_unacknowledged_def demo_broadcaster_def demo_chat_def demo_tables_def Let_def)

text \<open>
  Claim C2. The code meets the claim when the store raises no error and every registered
  handler returns (lemma \<open>acknowledgment_on_reliable_store\<close>). But the handlers are
  awaited with nothing to catch what they throw, before the acknowledgment is sent: a
  message that is not an acknowledgment and is seen for the first time, one of whose
  handlers throws, is saved and is not acknowledged. Its uuid is in the seen set by then,
  so the next arrival of it is a duplicate and is not acknowledged either.
\<close>

theorem throwing_handler_suppresses_acknowledgment:
  "engine_errors (db demo_throwing) = []
   \<and> uuid (demo_chat ''hi'') \<notin> seenMessageUuids demo_throwing
   \<and> \<not> isAcknowledgment (demo_chat ''hi'')
   \<and> handleIncomingMessage demo_env (demo_chat ''hi'') ''MQTT'' None demo_throwing =
       (Some (HandlerError 0), demo_unacknowledged)
   \<and> map m_uuid (messages (tables (db demo_unacknowledged))) = [''u1'']
   \<and> seenMessageUuids demo_unacknowledged = {''u1''}
   \<and> broadcast_calls demo_unacknowledged = []
   \<and> driver_sends demo_unacknowledged = []
   \<and> fst (handleIncomingMessage demo_env (demo_chat ''hi'') ''nostr'' None demo_unacknowledged) = None
   \<and> broadcast_calls (snd (handleIncomingMessage demo_env (demo_chat ''hi'') ''nostr'' None demo_unacknowledged)) = []
   \<and> driver_sends (snd (handleIncomingMessage demo_env (demo_chat ''hi'') ''nostr'' None demo_unacknowledged)) = []"
  by (simp add: demo_throwing_arrival)
     (simp add: handleIncomingMessage_def save_receipt_eq saveMessageReceipt_reliable
        insert_message_receipt_def receipt_of_def isAcknowledgment_def
        demo_unacknowledged_def demo_throwing_def demo_broadcaster_def demo_chat_def demo_tables_def)

text \<open>
  Claim C6. \<open>onMessage\<close> is the only registration the class has and \<open>messageHandlers\<close>
  the only handlers it holds: there is no \<open>onReceipt\<close> and no receipt event. The branch
  for a uuid in the seen set awaits \<open>saveMessageReceipt\<close> and returns. At a broadcaster
  that has handled the first arrival of \<open>u1\<close> and holds a registered handler, the second
  arrival of \<open>u1\<close> inserts its receipt, and the broadcaster is otherwise as it was but for
  the two readings of the clock: nothing is emitted and no handler is called (lemma
  \<open>duplicate_arrival\<close> has it for every arrival of a seen uuid).
\<close>

theorem duplicate_arrival_emits_no_receipt_event:
  "uuid (demo_chat ''hi'') \<in> seenMessageUuids demo_after_first
   \<and> length (messageHandlers demo_after_first) = 1
   \<and> handleIncomingMessage demo_env (demo_chat ''hi'') ''nostr'' (Some ''wss://nos.lol'') demo_after_first =
       (None,
        demo_after_first
          \<lparr>clock_reads := 6,
           db := (db demo_after_first)
             \<lparr>tables := (tables (db demo_after_first))
                \<lparr>message_receipts :=
                   [\<lparr>r_messageUuid = ''u1'', r_protocol = ''MQTT'', r_server = None,
                     r_receivedAt = 5001, r_latencyMs = 12\<rparr>,
                    \<lparr>r_messageUuid = ''u1'', r_protocol = ''nostr'', r_server = Some ''wss://nos.lol'',
                     r_receivedAt = 5004, r_latencyMs = 15\<rparr>]\<rparr>\<rparr>\<rparr>)
   \<and> handler_calls (snd (handleIncomingMessage demo_env (demo_chat ''hi'') ''nostr'' (Some ''wss://nos.lol'')
          demo_after_first)) = handler_calls demo_after_first"
  by (simp add: handleIncomingMessage_def save_receipt_eq saveMessageReceipt_reliable
        insert_message_receipt_def receipt_of_def
        demo_after_first_def demo_broadcaster_def demo_chat_def demo_tables_def)


text \<open>
  Against claim C3 as stated: an acknowledgment that arrives on MQTT and names nostr as
  \<open>receivedVia\<close> leaves one preference row, keyed by nostr, and none keyed by MQTT.
\<close>

theorem acknowledgment_arrival_transport_counterexample:
  "receivedVia (case type demo_ack of Type_acknowledgment a \<Rightarrow> a) = ''nostr''
   \<and> channel_preferences (tables (db (snd (handleIncomingMessage demo_env demo_ack ''MQTT'' None demo_broadcaster)))) =
       [\<lparr>cp_identity = ''magnet:alice'', cp_protocol = ''nostr'', cp_isWorking = True,
         cp_lastAckAt = Some 5003, cp_avgLatencyMs = Some 14,
         cp_preferenceOrder = None, cp_cannotUse = False\<rparr>]"
  by (simp add: handleIncomingMessage_def and_then_def save_incoming_reliable incoming_row_def
        save_receipt_eq saveMessageReceipt_reliable
        update_preferences_def update_learned_reliable learned_preference_def isAcknowledgment_def
        upsert_channel_preference_def excluded_preference_def same_channel_def
        insert_or_ignore_message_def insert_message_receipt_def receipt_of_def
        demo_env_def demo_broadcaster_def demo_ack_def demo_tables_def Let_def)

theorem acknowledgment_names_the_channel_witness:
  "engine_errors (db demo_broadcaster) = []
   \<and> uuid demo_ack_stated \<notin> seenMessageUuids demo_broadcaster
   \<and> channel_preferences (tables (db (snd (handleIncomingMessage demo_env demo_ack_stated ''IROH'' None demo_broadcaster)))) =
       [\<lparr>cp_identity = ''magnet:alice'', cp_protocol = ''nostr'', cp_isWorking = True,
         cp_lastAckAt = None, cp_avgLatencyMs = None,
         cp_preferenceOrder = Some 1, cp_cannotUse = False\<rparr>,
        \<lparr>cp_identity = ''magnet:alice'', cp_protocol = ''Waku'', cp_isWorking = False,
         cp_lastAckAt = None, cp_avgLatencyMs = None,
         cp_preferenceOrder = Some 5, cp_cannotUse = True\<rparr>]"
proof -
  have h1: "engine_errors (db demo_broadcaster) = []" by (simp add: demo_broadcaster_def)
  have h2: "uuid demo_ack_stated \<notin> seenMessageUuids demo_broadcaster" by (simp add: demo_broadcaster_def)
  have h3: "type demo_ack_stated = Type_acknowledgment
       \<lparr>ackOfUuid = ''m1'', receivedVia = ''nostr'',
        channelPreferences = Some [\<lparr>protocol = ''nostr'', preferenceOrder = 1, cannotUse = False\<rparr>,
                                   \<lparr>protocol = ''Waku'', preferenceOrder = 5, cannotUse = True\<rparr>]\<rparr>"
    by (simp add: demo_ack_stated_def)
  show ?thesis
    using acknowledgment_names_the_channel [OF h1 h2 h3, where env = demo_env and via = "''IROH''" and server = None] h1 h2
    by (simp add: upsert_channel_preference_def excluded_preference_def same_channel_def
          on_conflict_preference_def stated_preference_def demo_ack_stated_def
          demo_broadcaster_def demo_tables_def Let_def)
qed

subsection \<open>An invalid recipient\<close>

lemma broadcast_invalid:
  "decodeIdentity env recipientMagnetLink = None \<Longrightarrow>
   broadcast env recipientMagnetLink payload b =
     (Inl InvalidRecipient, b\<lparr>broadcast_calls := broadcast_calls b @ [(recipientMagnetLink, payload)]\<rparr>)"
  by (simp add: broadcast_eq)

lemma saveMessage_outcome:
  "(fst (saveMessage row d) = None \<and> tables (snd (saveMessage row d)) = insert_or_ignore_message row (tables d))
   \<or> ((\<exists>error. fst (saveMessage row d) = Some (StoreError error)) \<and> tables (snd (saveMessage row d)) = tables d)"
  using mutation_outcome [of "\<lambda>t. Inr (insert_or_ignore_message row t)" d]
  by (auto simp: saveMessage_def)

lemma sendMessage_invalid:
  assumes "decodeIdentity env recipientMagnetLink = None"
  shows "sendMessage env recipientMagnetLink body b =
     (let row = \<lparr>m_uuid = uuid_source b (uuids_drawn b), m_fromIdentity = myMagnetLink b,
                  m_toIdentity = recipientMagnetLink, m_content = body,
                  m_timestamp = clock b (clock_reads b), m_isAcknowledgment = False,
                  m_firstReceivedProtocol = None, m_firstReceivedAt = None\<rparr>;
          b2 = b\<lparr>uuids_drawn := uuids_drawn b + 1, clock_reads := clock_reads b + 1,
                  db := snd (saveMessage row (db b))\<rparr>
      in case fst (saveMessage row (db b)) of
           Some thrown \<Rightarrow> (Inl thrown, b2)
         | None \<Rightarrow>
             (Inl InvalidRecipient,
              b2\<lparr>broadcast_calls := broadcast_calls b @
                     [(recipientMagnetLink, serializeMessage env (outgoing_message body b))]\<rparr>))"
  using assms
  by (simp add: sendMessage_def on_db_eq Date_now_def randomUUID_def outgoing_message_def
        broadcast_invalid Let_def split: option.splits)

text \<open>
  Claim C4, as amended. When the recipient's magnet link does not decode, \<open>broadcast\<close>
  throws the invalid-recipient error with no driver send made and the store untouched.
  \<open>sendMessage\<close> throws it too with no driver send made (unless the store has thrown
  first, which it does not when it raises no error), but it saves the outgoing message
  before it broadcasts: when the invalid-recipient error is thrown the store has taken
  the insert of the message row, and nothing else of the store has changed.
\<close>

theorem invalid_recipient_raised_before_any_send:
  assumes "decodeIdentity env recipientMagnetLink = None"
  shows "(case broadcast env recipientMagnetLink payload b of
            (result, b') \<Rightarrow>
               result = Inl InvalidRecipient \<and> driver_sends b' = driver_sends b \<and> db b' = db b)
       \<and> (case sendMessage env recipientMagnetLink body b of
            (result, b') \<Rightarrow>
               driver_sends b' = driver_sends b
             \<and> (result = Inl InvalidRecipient \<or> (\<exists>error. result = Inl (StoreError error)))
             \<and> (engine_errors (db b) = [] \<longrightarrow> result = Inl InvalidRecipient)
             \<and> tables (db b') =
                 (if result = Inl InvalidRecipient
                  then insert_or_ignore_message
                         \<lparr>m_uuid = uuid_source b (uuids_drawn b), m_fromIdentity = myMagnetLink b,
                          m_toIdentity = recipientMagnetLink, m_content = body,
                          m_timestamp = clock b (clock_reads b), m_isAcknowledgment = False,
                          m_firstReceivedProtocol = None, m_firstReceivedAt = None\<rparr>
                         (tables (db b))
                  else tables (db b)))"
proof -
  let ?row = "\<lparr>m_uuid = uuid_source b (uuids_drawn b), m_fromIdentity = myMagnetLink b,
                 m_toIdentity = recipientMagnetLink, m_content = body,
                 m_timestamp = clock b (clock_reads b), m_isAcknowledgment = False,
                 m_firstReceivedProtocol = None, m_firstReceivedAt = None\<rparr>"
  have first: "case broadcast env recipientMagnetLink payload b of
            (result, b') \<Rightarrow>
               result = Inl InvalidRecipient \<and> driver_sends b' = driver_sends b \<and> db b' = db b"
    using assms by (simp add: broadcast_invalid)
  have reliable: "engine_errors (db b) = [] \<Longrightarrow> fst (saveMessage ?row (db b)) = None"
    by (simp add: saveMessage_def mutation_reliable)
  have second: "case sendMessage env recipientMagnetLink body b of
            (result, b') \<Rightarrow>
               driver_sends b' = driver_sends b
             \<and> (result = Inl InvalidRecipient \<or> (\<exists>error. result = Inl (StoreError error)))
             \<and> (engine_errors (db b) = [] \<longrightarrow> result = Inl InvalidRecipient)
             \<and> tables (db b') =
                 (if result = Inl InvalidRecipient
                  then insert_or_ignore_message ?row (tables (db b))
                  else tables (db b))"
    using saveMessage_outcome [of ?row "db b"] reliable
    by (auto simp: sendMessage_invalid [OF assms] Let_def)
  from first second show ?thesis by simp
qed

text \<open>
  Against claim C4 as stated: the magnet link does not decode, \<open>sendMessage\<close> throws the
  invalid-recipient error with no driver send made, and the messages table, empty before
  the call, holds the outgoing message after it.
\<close>

theorem invalid_recipient_store_counterexample:
  "decodeIdentity demo_env ''magnet:nobody'' = None
   \<and> fst (sendMessage demo_env ''magnet:nobody'' ''hello'' demo_broadcaster) = Inl InvalidRecipient
   \<and> driver_sends (snd (sendMessage demo_env ''magnet:nobody'' ''hello'' demo_broadcaster)) = []
   \<and> messages (tables (db demo_broadcaster)) = []
   \<and> messages (tables (db (snd (sendMessage demo_env ''magnet:nobody'' ''hello'' demo_broadcaster)))) =
       [\<lparr>m_uuid = ''local-'', m_fromIdentity = ''magnet:bob'', m_toIdentity = ''magnet:nobody'',
         m_content = ''hello'', m_timestamp = 5000, m_isAcknowledgment = False,
         m_firstReceivedProtocol = None, m_firstReceivedAt = None\<rparr>]"
  by (simp add: sendMessage_def on_db_eq Date_now_def randomUUID_def outgoing_message_def
        broadcast_eq saveMessage_def mutation_reliable insert_or_ignore_message_def
        demo_env_def demo_broadcaster_def demo_tables_def Let_def)

theorem invalid_recipient_raised_before_any_send_witness:
  "decodeIdentity demo_env ''magnet:nobody'' = None
   \<and> broadcast demo_env ''magnet:nobody'' ''payload'' demo_broadcaster =
       (Inl InvalidRecipient, demo_broadcaster\<lparr>broadcast_calls := [(''magnet:nobody'', ''payload'')]\<rparr>)
   \<and> fst (sendMessage demo_env ''magnet:nobody'' ''hello'' demo_broadcaster) = Inl InvalidRecipient
   \<and> driver_sends (snd (sendMessage demo_env ''magnet:nobody'' ''hello'' demo_broadcaster)) =
       driver_sends demo_broadcaster
   \<and> protocol_performance (tables (db (snd (sendMessage demo_env ''magnet:nobody'' ''hello'' demo_broadcaster)))) = []"
proof -
  have h: "decodeIdentity demo_env ''magnet:nobody'' = None" by (simp add: demo_env_def)
  have e: "engine_errors (db demo_broadcaster) = []" by (simp add: demo_broadcaster_def)
  show ?thesis
    using invalid_recipient_raised_before_any_send [OF h, where payload = "''payload''"
        and body = "''hello''" and b = demo_broadcaster] h e
    by (simp add: case_prod_beta insert_or_ignore_message_def broadcast_invalid
          demo_broadcaster_def demo_tables_def)
qed

section \<open>Properties of the runs in flight\<close>

subsection \<open>A run taken alone is the function\<close>

lemma reaches_ended_Returned: "reaches env message via server Returned b (None, b)"
  unfolding reaches_def by (rule exI [of _ 0]) (simp add: ended_def)

lemma reaches_ended_Thrown: "reaches env message via server (Thrown thrown) b (Some thrown, b)"
  unfolding reaches_def by (rule exI [of _ 0]) (simp add: ended_def)

lemma reaches_step:
  assumes "resume_point env message via server point b = (point', b')"
      and "reaches env message via server point' b' outcome"
  shows "reaches env message via server point b outcome"
proof -
  obtain n where "steps_alone n env message via server point' b' = ended outcome"
    using assms(2) by (auto simp: reaches_def)
  then have "steps_alone (Suc n) env message via server point b = ended outcome"
    using assms(1) by simp
  then show ?thesis unfolding reaches_def by blast
qed

text \<open>An awaited call that is followed by the rest of the function.\<close>

lemma reaches_proceed:
  assumes rest: "\<And>b'. reaches env message via server next b' (continuation b')"
  shows "reaches env message via server (fst (proceed next (call b))) (snd (proceed next (call b)))
           (and_then call continuation b)"
proof (cases "call b")
  case (Pair thrown b')
  show ?thesis
  proof (cases thrown)
    case None
    with Pair rest [of b'] show ?thesis
      by (simp add: proceed_def and_then_def)
  next
    case (Some e)
    with Pair reaches_ended_Thrown [of env message via server e b'] show ?thesis
      by (simp add: proceed_def and_then_def)
  qed
qed

lemma reaches_await:
  assumes step: "resume_point env message via server point b = proceed next (call b)"
      and rest: "\<And>b'. reaches env message via server next b' (continuation b')"
  shows "reaches env message via server point b (and_then call continuation b)"
proof -
  have "resume_point env message via server point b =
          (fst (proceed next (call b)), snd (proceed next (call b)))"
    using step by simp
  from reaches_step [OF this reaches_proceed [of env message via server "next" continuation call b, OF rest]]
  show ?thesis .
qed

lemma broadcast_acknowledgment_halves:
  "broadcast_acknowledgment env message serialized b =
     (None, end_acknowledgment (fst (send_all env (fromMagnetLink message) serialized b))
              (snd (send_all env (fromMagnetLink message) serialized b)))"
  by (cases "send_all env (fromMagnetLink message) serialized b")
     (auto simp: broadcast_acknowledgment_def broadcast_def end_acknowledgment_def collect_def
        split: sum.splits)

lemma reaches_broadcast:
  "reaches env message via server (Awaits_acknowledgment_saved serialized) b
     (broadcast_acknowledgment env message serialized b)"
proof -
  obtain outcome b' where sent: "send_all env (fromMagnetLink message) serialized b = (outcome, b')"
    by (cases "send_all env (fromMagnetLink message) serialized b")
  have first: "resume_point env message via server (Awaits_acknowledgment_saved serialized) b =
          (Awaits_broadcast outcome, b')"
    using sent by (simp add: resume_point_def)
  have second: "resume_point env message via server (Awaits_broadcast outcome) b' =
          (Returned, end_acknowledgment outcome b')"
    by (simp add: resume_point_def)
  from reaches_step [OF first reaches_step [OF second reaches_ended_Returned]] sent
  show ?thesis
    by (simp add: broadcast_acknowledgment_halves)
qed

lemma reaches_acknowledgment:
  assumes "begin_acknowledgment env message via b = (point, b')"
  shows "reaches env message via server point b' (acknowledge env message via b)"
proof (cases "isAcknowledgment message")
  case True
  with assms reaches_ended_Returned [of env message via server b] show ?thesis
    by (auto simp: begin_acknowledgment_def acknowledge_def)
next
  case False
  let ?ack = "acknowledgment_of env message via b"
  let ?b1 = "snd (Date_now (snd (randomUUID b)))"
  let ?row = "acknowledgment_row env message ?ack ?b1"
  let ?s = "serializeMessage env ?ack"
  have point: "point = Awaits_acknowledgment_init ?row ?s" and b': "b' = ?b1"
    using assms False by (auto simp: begin_acknowledgment_def Let_def)
  have step: "resume_point env message via server (Awaits_acknowledgment_init ?row ?s) ?b1 =
                proceed (Awaits_acknowledgment_saved ?s) (on_db (saveMessage ?row) ?b1)"
    by (simp add: resume_point_def)
  have "reaches env message via server (Awaits_acknowledgment_init ?row ?s) ?b1
          (and_then (on_db (saveMessage ?row)) (broadcast_acknowledgment env message ?s) ?b1)"
    using step by (rule reaches_await) (rule reaches_broadcast)
  moreover have "acknowledge env message via b =
      and_then (on_db (saveMessage ?row)) (broadcast_acknowledgment env message ?s) ?b1"
    using False
    by (simp add: acknowledge_def sendAcknowledgment_def save_acknowledgment_def and_then_def Let_def)
  ultimately show ?thesis
    using point b' by simp
qed

lemma reaches_handlers:
  assumes "i \<le> length (messageHandlers b)"
      and "next_handler env message via i b = (point, b')"
  shows "reaches env message via server point b'
           (and_then (notify_handlers (drop i (messageHandlers b)) i message via)
              (acknowledge env message via) b)"
  using assms
proof (induction "length (messageHandlers b) - i" arbitrary: i b point b')
  case 0
  then have i: "i = length (messageHandlers b)" by simp
  then have "begin_acknowledgment env message via b = (point, b')"
    using "0.prems"(2) by (simp add: next_handler_def)
  from reaches_acknowledgment [OF this, of server] i show ?case
    by (simp add: and_then_def)
next
  case (Suc k)
  then have lt: "i < length (messageHandlers b)" by simp
  let ?b1 = "b\<lparr>handler_calls := handler_calls b @ [(i, message, via)]\<rparr>"
  have dr: "drop i (messageHandlers b) = (messageHandlers b ! i) # drop (Suc i) (messageHandlers b)"
    using lt by (simp add: Cons_nth_drop_Suc)
  have b': "b' = ?b1" using Suc.prems(2) lt by (auto simp: next_handler_def)
  show ?case
  proof (cases "(messageHandlers b ! i) message via")
    case True
    then have point: "point = Awaits_handler i"
      using Suc.prems(2) lt by (auto simp: next_handler_def)
    obtain point2 b2 where nxt: "next_handler env message via (Suc i) ?b1 = (point2, b2)"
      by (cases "next_handler env message via (Suc i) ?b1")
    have step: "resume_point env message via server (Awaits_handler i) ?b1 = (point2, b2)"
      using nxt by (simp add: resume_point_def)
    have "reaches env message via server point2 b2
            (and_then (notify_handlers (drop (Suc i) (messageHandlers ?b1)) (Suc i) message via)
               (acknowledge env message via) ?b1)"
      using Suc.hyps(2) lt nxt by (intro Suc.hyps(1)) simp_all
    from reaches_step [OF step this] True dr point b' show ?thesis
      by (simp add: and_then_def Let_def)
  next
    case False
    then have point: "point = Thrown (HandlerError i)"
      using Suc.prems(2) lt by (auto simp: next_handler_def)
    from reaches_ended_Thrown [of env message via server "HandlerError i" ?b1] False dr point b'
    show ?thesis
      by (simp add: and_then_def Let_def)
  qed
qed

lemma reaches_notify:
  assumes "resume_point env message via server point b = next_handler env message via 0 b"
  shows "reaches env message via server point b
           (and_then (\<lambda>b'. notify_handlers (messageHandlers b') 0 message via b')
              (acknowledge env message via) b)"
proof -
  obtain point' b' where nxt: "next_handler env message via 0 b = (point', b')"
    by (cases "next_handler env message via 0 b")
  have "reaches env message via server point' b'
          (and_then (notify_handlers (drop 0 (messageHandlers b)) 0 message via)
             (acknowledge env message via) b)"
    using nxt by (intro reaches_handlers) simp_all
  then have "reaches env message via server point' b'
          (and_then (\<lambda>b'. notify_handlers (messageHandlers b') 0 message via b')
             (acknowledge env message via) b)"
    by (simp add: and_then_def)
  moreover have "resume_point env message via server point b = (point', b')"
    using assms nxt by (rule trans)
  ultimately show ?thesis
    by (rule reaches_step [rotated])
qed

lemma reaches_stated:
  "reaches env message via server (Awaits_updateChannelPreference prefs) b
     (and_then (update_stated message prefs)
        (and_then (\<lambda>b'. notify_handlers (messageHandlers b') 0 message via b')
           (acknowledge env message via)) b)"
proof (induction prefs arbitrary: b)
  case Nil
  have "resume_point env message via server (Awaits_updateChannelPreference []) b =
          next_handler env message via 0 b"
    by (simp add: resume_point_def)
  from reaches_notify [OF this] show ?case
    by (simp add: and_then_def)
next
  case (Cons pref prefs)
  have step: "resume_point env message via server (Awaits_updateChannelPreference (pref # prefs)) b =
                proceed (Awaits_updateChannelPreference prefs)
                  (on_db (updateChannelPreference (stated_preference message pref)) b)"
    by (simp add: resume_point_def)
  have "reaches env message via server (Awaits_updateChannelPreference (pref # prefs)) b
          (and_then (on_db (updateChannelPreference (stated_preference message pref)))
             (and_then (update_stated message prefs)
                (and_then (\<lambda>b'. notify_handlers (messageHandlers b') 0 message via b')
                   (acknowledge env message via))) b)"
    using step by (rule reaches_await) (rule Cons.IH)
  moreover have "update_stated message (pref # prefs) =
      and_then (on_db (updateChannelPreference (stated_preference message pref))) (update_stated message prefs)"
    by (rule ext) simp
  ultimately show ?case
    by (simp only: and_then_assoc)
qed

lemma reaches_preferences:
  "reaches env message via server Awaits_saveMessageReceipt b
     (and_then (update_preferences message)
        (and_then (\<lambda>b'. notify_handlers (messageHandlers b') 0 message via b')
           (acknowledge env message via)) b)"
proof (cases "type message")
  case Type_message
  then have "resume_point env message via server Awaits_saveMessageReceipt b =
               next_handler env message via 0 b"
    by (simp add: resume_point_def)
  from reaches_notify [OF this] Type_message show ?thesis
    by (simp add: and_then_def update_preferences_def)
next
  case (Type_acknowledgment a)
  let ?prefs = "case channelPreferences a of None \<Rightarrow> [] | Some prefs \<Rightarrow> prefs"
  have step: "resume_point env message via server Awaits_saveMessageReceipt b =
                proceed (Awaits_updateChannelPreference ?prefs) (update_learned message a b)"
    using Type_acknowledgment by (simp add: resume_point_def)
  have "reaches env message via server Awaits_saveMessageReceipt b
          (and_then (update_learned message a)
             (and_then (update_stated message ?prefs)
                (and_then (\<lambda>b'. notify_handlers (messageHandlers b') 0 message via b')
                   (acknowledge env message via))) b)"
    using step by (rule reaches_await) (rule reaches_stated)
  moreover have "update_stated message ?prefs =
      (case channelPreferences a of None \<Rightarrow> (\<lambda>b'. (None, b')) | Some prefs \<Rightarrow> update_stated message prefs)"
    by (cases "channelPreferences a") (auto intro!: ext)
  moreover have "update_preferences message =
      and_then (update_learned message a)
        (case channelPreferences a of None \<Rightarrow> (\<lambda>b'. (None, b')) | Some prefs \<Rightarrow> update_stated message prefs)"
    using Type_acknowledgment by (intro ext) (simp add: update_preferences_def)
  ultimately show ?thesis
    by (simp only: and_then_assoc)
qed

lemma reaches_save_receipt:
  "reaches env message via server Awaits_saveMessage b
     (and_then (save_receipt message via server)
        (and_then (update_preferences message)
           (and_then (\<lambda>b'. notify_handlers (messageHandlers b') 0 message via b')
              (acknowledge env message via))) b)"
proof -
  have "resume_point env message via server Awaits_saveMessage b =
          proceed Awaits_saveMessageReceipt (save_receipt message via server b)"
    by (simp add: resume_point_def)
  then show ?thesis by (rule reaches_await) (rule reaches_preferences)
qed

lemma reaches_save_message:
  "reaches env message via server (Awaits_init row) b
     (and_then (on_db (saveMessage row))
        (and_then (save_receipt message via server)
           (and_then (update_preferences message)
              (and_then (\<lambda>b'. notify_handlers (messageHandlers b') 0 message via b')
                 (acknowledge env message via)))) b)"
proof -
  have "resume_point env message via server (Awaits_init row) b =
          proceed Awaits_saveMessage (on_db (saveMessage row) b)"
    by (simp add: resume_point_def)
  then show ?thesis by (rule reaches_await) (rule reaches_save_receipt)
qed

lemma reaches_duplicate:
  "reaches env message via server
     (fst (proceed Awaits_duplicate_receipt (save_receipt message via server b)))
     (snd (proceed Awaits_duplicate_receipt (save_receipt message via server b)))
     (save_receipt message via server b)"
proof -
  have last: "reaches env message via server Awaits_duplicate_receipt b' (None, b')" for b'
  proof -
    have "resume_point env message via server Awaits_duplicate_receipt b' = (Returned, b')"
      by (simp add: resume_point_def)
    from reaches_step [OF this reaches_ended_Returned] show ?thesis .
  qed
  have "reaches env message via server
     (fst (proceed Awaits_duplicate_receipt (save_receipt message via server b)))
     (snd (proceed Awaits_duplicate_receipt (save_receipt message via server b)))
     (and_then (save_receipt message via server) (\<lambda>b'. (None, b')) b)"
    by (rule reaches_proceed) (rule last)
  then show ?thesis
    by (simp add: and_then_def split: prod.splits option.splits)
qed

text \<open>
  The runs in flight and the function \<open>handleIncomingMessage\<close> are the same program: the
  run an arrival starts, taken up again and again with nothing in between, ends in the
  state the function returns, returned or thrown as the function returns or throws.
\<close>

lemma run_alone_is_handleIncomingMessage:
  "case arrive message via server (b, []) of
     (b0, runs) \<Rightarrow>
        (\<exists>r. runs = [r] \<and> run_message r = message \<and> run_via r = via \<and> run_server r = server
            \<and> reaches env message via server (run_point r) b0
                 (handleIncomingMessage env message via server b))"
proof (cases "uuid message \<in> seenMessageUuids b")
  case True
  then show ?thesis
    using reaches_duplicate [of env message via server b]
    by (simp add: arrive_def handleIncomingMessage_def case_prod_beta)
next
  case False
  let ?b0 = "b\<lparr>seenMessageUuids := insert (uuid message) (seenMessageUuids b)\<rparr>"
  have "acknowledge env message via =
          (\<lambda>b'. if \<not> isAcknowledgment message then sendAcknowledgment env message via b' else (None, b'))"
    by (rule ext) (simp add: acknowledge_def)
  moreover have "and_then (save_incoming message via) rest ?b0 =
      and_then (on_db (saveMessage (incoming_row message via ?b0))) rest (snd (Date_now ?b0))" for rest
    by (simp add: and_then_def save_incoming_def)
  ultimately show ?thesis
    using False reaches_save_message [of env message via server "incoming_row message via ?b0"
        "snd (Date_now ?b0)"]
    by (simp add: arrive_def handleIncomingMessage_def Let_def)
qed

subsection \<open>Two arrivals of one uuid\<close>

lemmas run_steps =
  arrive_def resume_def resume_point_def proceed_def next_handler_def begin_acknowledgment_def
  end_acknowledgment_def send_all_def collect_def on_db_eq Date_now_def randomUUID_def
  incoming_row_def acknowledgment_row_def acknowledgment_of_def createAcknowledgment_def
  save_receipt_eq saveMessageReceipt_reliable saveMessage_def mutation_reliable
  insert_or_ignore_message_def insert_message_receipt_def receipt_of_def
  isAcknowledgment_def promises_def Let_def

lemma demo_arrivals_in_turn:
  "map run_point (snd (interleave demo_env demo_in_turn (demo_broadcaster, []))) = [Returned, Returned]
   \<and> length (filter (arrival_of ''u1'') demo_in_turn) = 2
   \<and> length (message_rows ''u1'' (fst (interleave demo_env demo_in_turn (demo_broadcaster, [])))) = 1
   \<and> map r_protocol (receipt_rows ''u1'' (fst (interleave demo_env demo_in_turn (demo_broadcaster, []))))
        = [''MQTT'', ''nostr'']"
  by (simp add: demo_in_turn_def run_steps message_rows_def receipt_rows_def
        demo_env_def demo_broadcaster_def demo_chat_def demo_tables_def)

text \<open>
  Two arrivals of a uuid that is new to the broadcaster and to the store, the second
  delivered before the run of the first is taken up again, on a store that raises no
  error: the first run is suspended before its insert, the insert of the second arrival's
  receipt is rejected, and the tables are as they were.
\<close>

lemma back_to_back_arrivals:
  assumes "engine_errors (db b) = []"
      and "uuid first \<notin> seenMessageUuids b"
      and "\<not> (\<exists>row \<in> set (messages (tables (db b))). m_uuid row = uuid first)"
      and "uuid second = uuid first"
  shows "case arrive second via2 server2 (arrive first via1 server1 (b, [])) of
           (b', runs) \<Rightarrow>
              tables (db b') = tables (db b)
            \<and> map run_point runs =
                [Awaits_init (incoming_row first via1
                    (b\<lparr>seenMessageUuids := insert (uuid first) (seenMessageUuids b)\<rparr>)),
                 Thrown (StoreError (Some SQLITE_CONSTRAINT))]"
proof -
  let ?b0 = "b\<lparr>seenMessageUuids := insert (uuid first) (seenMessageUuids b)\<rparr>"
  let ?b1 = "snd (Date_now ?b0)"
  have first: "arrive first via1 server1 (b, []) =
      (?b1, [\<lparr>run_message = first, run_via = via1, run_server = server1,
               run_point = Awaits_init (incoming_row first via1 ?b0)\<rparr>])"
    using assms(2) by (simp add: arrive_def Let_def)
  have seen: "uuid second \<in> seenMessageUuids ?b1"
    using assms(4) by (simp add: Date_now_def)
  have e: "engine_errors (db ?b1) = []" using assms(1) by (simp add: Date_now_def)
  have none: "\<not> (\<exists>row \<in> set (messages (tables (db ?b1))). m_uuid row = uuid second)"
    using assms(3,4) by (simp add: Date_now_def)
  have "save_receipt second via2 server2 ?b1 =
      (Some (StoreError (Some SQLITE_CONSTRAINT)), ?b1\<lparr>clock_reads := clock_reads ?b1 + 2\<rparr>)"
    using e none by (rule save_receipt_rejected)
  then show ?thesis
    unfolding first using seen
    by (simp add: arrive_def proceed_def) (simp add: Date_now_def)
qed

text \<open>
  Claim C1. The test of the seen set and the insertion into it are one synchronous piece,
  the message row is inserted once, and an arrival of a seen uuid inserts a receipt only
  (lemma \<open>duplicate_arrival\<close>); when the arrivals are handled one after the other the
  store ends with one message row and a receipt row for each (lemma
  \<open>demo_arrivals_in_turn\<close>). But the insert of a duplicate's receipt is executed within
  the synchronous head of its arrival, while the run of the first arrival is suspended in
  \<open>saveMessage\<close>, before the insert of the message row (lemma
  \<open>back_to_back_arrivals\<close>). Two arrivals of \<open>u1\<close> are delivered, on MQTT and on
  nostr, before the first run is taken up again: the insert of the second receipt
  violates the foreign key and throws \<open>SQLITE_CONSTRAINT\<close>, which is not retried. When
  both runs have ended the store holds one message row of \<open>u1\<close> and one receipt row
  for the two arrivals.
\<close>

theorem duplicate_receipt_rejected_before_message_row:
  "interleave demo_env demo_events (demo_broadcaster, []) =
     (demo_interleaved,
      [\<lparr>run_message = demo_chat ''hi'', run_via = ''MQTT'', run_server = None, run_point = Returned\<rparr>,
       \<lparr>run_message = demo_chat ''hi'', run_via = ''nostr'', run_server = Some ''wss://nos.lol'',
        run_point = Thrown (StoreError (Some SQLITE_CONSTRAINT))\<rparr>])
   \<and> length (filter (arrival_of ''u1'') demo_events) = 2
   \<and> length (message_rows ''u1'' demo_interleaved) = 1
   \<and> map r_protocol (receipt_rows ''u1'' demo_interleaved) = [''MQTT'']"
  by (simp add: demo_events_def run_steps message_rows_def receipt_rows_def
        demo_env_def demo_broadcaster_def demo_chat_def demo_tables_def demo_interleaved_def)

end
